theory Spec2Isabelle
  imports Complex_Main "HOL-Library.AList" "HOL-Library.Sublist" "HOL-Library.Log_Nat"
begin

section \<open>PyPlag: the report post-processing of \<open>src/main.py\<close>\<close>

text \<open>
  The development follows \<open>src/main.py\<close>: the class \<open>PyPlag\<close> with its constructor,
  \<open>run\<close> and \<open>_post_process_jplag_results\<close>, and the three dataclasses of
  \<open>submission.py\<close>, \<open>settings.py\<close> and \<open>report.py\<close>.

  Python exceptions are values of \<open>error\<close>; a function that may raise returns
  \<open>error + 'a\<close> with \<open>Inl\<close> for the exception. Dictionaries are association lists
  read with \<open>map_of\<close>. A Python \<open>float\<close> is a binary64 number, and its
  arithmetic rounds as IEEE 754 does.
\<close>

subsection \<open>Exceptions\<close>

datatype error =
    FileNotFoundError
  | BadZipFile
  | IsADirectoryError
  | NotADirectoryError
  | FileExistsError
  | JSONDecodeError
  | ValueError
  | KeyError
  | IndexError
  | OverflowError
  | PyPlagException string

definition and_then :: "error + 'a \<Rightarrow> ('a \<Rightarrow> error + 'b) \<Rightarrow> error + 'b" where
  "and_then r f = (case r of Inl e \<Rightarrow> Inl e | Inr x \<Rightarrow> f x)"

subsection \<open>Strings and paths\<close>

text \<open>\<open>str.rfind\<close> for one character: the index of its last occurrence.\<close>

fun rfind :: "char \<Rightarrow> string \<Rightarrow> nat option" where
  "rfind c [] = None"
| "rfind c (x # xs) =
     (case rfind c xs of
        Some i \<Rightarrow> Some (Suc i)
      | None \<Rightarrow> if x = c then Some 0 else None)"

text \<open>
  \<open>PurePath.stem\<close> and \<open>PurePath.suffix\<close> of a file name (pathlib of Python 3.12,
  the first version with \<open>Path.walk\<close>): the name is cut at its last dot unless
  that dot is the first or the last character.
\<close>

definition stem :: "string \<Rightarrow> string" where
  "stem name =
     (case rfind CHR ''.'' name of
        None \<Rightarrow> name
      | Some i \<Rightarrow> if 0 < i \<and> i < length name - 1 then take i name else name)"

definition suffix_of :: "string \<Rightarrow> string" where
  "suffix_of name =
     (case rfind CHR ''.'' name of
        None \<Rightarrow> []
      | Some i \<Rightarrow> if 0 < i \<and> i < length name - 1 then drop i name else [])"

text \<open>\<open>str.split(sep)\<close> for a separator of one character.\<close>

fun split :: "char \<Rightarrow> string \<Rightarrow> string list" where
  "split c [] = [[]]"
| "split c (x # xs) =
     (if x = c then [] # split c xs
      else (case split c xs of
              [] \<Rightarrow> [[x]]
            | y # ys \<Rightarrow> (x # y) # ys))"

text \<open>A path is the list of its components; \<open>p / name\<close> appends one.\<close>

type_synonym path = "string list"

text \<open>\<open>report.with_stem(f"{report.stem}.min")\<close>: the suffix is kept.\<close>

definition with_min_stem :: "path \<Rightarrow> path" where
  "with_min_stem p =
     (case rev p of
        [] \<Rightarrow> []
      | name # up \<Rightarrow> rev up @ [stem name @ ''.min'' @ suffix_of name])"

subsection \<open>Python numbers, lists and dictionaries\<close>

text \<open>
  A number of a JSON document as it is written, and what \<open>json.load\<close> makes
  of it: a literal without fraction and exponent becomes an \<open>int\<close>, any other
  literal the nearest \<open>float\<close>, and the constants \<open>NaN\<close>, \<open>Infinity\<close> and
  \<open>-Infinity\<close> the floats of these names.
\<close>

datatype json_number = JInt int | JFloat rat | JNaN | JInfinity | JNegInfinity

text \<open>
  A Python \<open>float\<close> is a binary64 number: a finite one is given by the rational
  it stands for (the sign of a zero is left out; \<open>int\<close> does not see it).
\<close>

datatype pyfloat = Finite rat | Infinity | NegInfinity | NaN

datatype py_number = PyInt int | PyFloat pyfloat

definition pow2 :: "int \<Rightarrow> rat" where
  "pow2 e = (if 0 \<le> e then 2 ^ nat e else 1 / 2 ^ nat (- e))"

text \<open>The exponent \<open>e\<close> with \<open>2 ^ e \<le> a < 2 ^ (e + 1)\<close>, for \<open>a > 0\<close>.\<close>

definition floor_log2 :: "rat \<Rightarrow> int" where
  "floor_log2 a = (if 1 \<le> a then bitlen \<lfloor>a\<rfloor> - 1 else - bitlen (\<lceil>1 / a\<rceil> - 1))"

text \<open>Rounding to the nearest integer, a tie to the even one.\<close>

definition round_half_even :: "rat \<Rightarrow> int" where
  "round_half_even q =
     (let f = \<lfloor>q\<rfloor>; r = q - of_int f
      in if r < 1 / 2 then f else if 1 / 2 < r then f + 1 else if even f then f else f + 1)"

text \<open>
  The binary64 number nearest to a rational (IEEE 754, round to nearest, ties to
  even): 53 bits of significand, the exponent not below \<open>-1022\<close> (below it the
  subnormal numbers, spaced \<open>2 ^ -1074\<close>), and infinity when the rounded number
  needs an exponent above \<open>1023\<close>. This is the result of \<open>float(literal)\<close> and of
  every \<open>float\<close> operation on the exact result of the operation.
\<close>

definition round_double :: "rat \<Rightarrow> pyfloat" where
  "round_double x =
     (if x = 0 then Finite 0
      else
        (let a = \<bar>x\<bar>;
             e = max (floor_log2 a) (- 1022);
             n = round_half_even (a / pow2 (e - 52))
         in if 1023 < e \<or> (e = 1023 \<and> n = 2 ^ 53)
            then (if 0 < x then Infinity else NegInfinity)
            else Finite (sgn x * of_int n * pow2 (e - 52))))"

definition loads_number :: "json_number \<Rightarrow> py_number" where
  "loads_number j =
     (case j of
        JInt n \<Rightarrow> PyInt n
      | JFloat r \<Rightarrow> PyFloat (round_double r)
      | JNaN \<Rightarrow> PyFloat NaN
      | JInfinity \<Rightarrow> PyFloat Infinity
      | JNegInfinity \<Rightarrow> PyFloat NegInfinity)"

text \<open>
  \<open>v * n\<close> for an \<open>int\<close> \<open>n > 0\<close>: exact on an \<open>int\<close>, the rounded product on a
  \<open>float\<close>; an overflow of the \<open>float\<close> product is an infinity, not an exception.
\<close>

definition py_times :: "py_number \<Rightarrow> int \<Rightarrow> py_number" where
  "py_times v n =
     (case v of
        PyInt m \<Rightarrow> PyInt (m * n)
      | PyFloat (Finite r) \<Rightarrow> PyFloat (round_double (r * of_int n))
      | PyFloat Infinity \<Rightarrow> PyFloat Infinity
      | PyFloat NegInfinity \<Rightarrow> PyFloat NegInfinity
      | PyFloat NaN \<Rightarrow> PyFloat NaN)"

text \<open>
  \<open>int(x)\<close> truncates towards zero; it raises \<open>OverflowError\<close> on an infinity and
  \<open>ValueError\<close> on a NaN.
\<close>

definition py_int :: "py_number \<Rightarrow> error + int" where
  "py_int v =
     (case v of
        PyInt m \<Rightarrow> Inr m
      | PyFloat (Finite r) \<Rightarrow> Inr (if 0 \<le> r then \<lfloor>r\<rfloor> else \<lceil>r\<rceil>)
      | PyFloat Infinity \<Rightarrow> Inl OverflowError
      | PyFloat NegInfinity \<Rightarrow> Inl OverflowError
      | PyFloat NaN \<Rightarrow> Inl ValueError)"

text \<open>
  A list subscript: a negative index counts from the end, and an index out of
  range raises \<open>IndexError\<close>. The result is the position that is read or written.
\<close>

definition py_index :: "'a list \<Rightarrow> int \<Rightarrow> error + nat" where
  "py_index xs i =
     (let n = int (length xs);
          j = (if i < 0 then n + i else i)
      in if 0 \<le> j \<and> j < n then Inr (nat j) else Inl IndexError)"

definition getitem :: "('k \<times> 'v) list \<Rightarrow> 'k \<Rightarrow> error + 'v" where
  "getitem d k = (case map_of d k of None \<Rightarrow> Inl KeyError | Some v \<Rightarrow> Inr v)"

definition delitem :: "('k \<times> 'v) list \<Rightarrow> 'k \<Rightarrow> error + ('k \<times> 'v) list" where
  "delitem d k = (case map_of d k of None \<Rightarrow> Inl KeyError | Some v \<Rightarrow> Inr (AList.delete k d))"

subsection \<open>The dataclasses\<close>

record PyPlagSubmission =
  id' :: string
  lang :: string
  author :: string
  files :: "(string \<times> string) list"

record PyPlagSettings =
  java_cmd :: string
  jplag_jar :: path
  report_dir :: path
  clustering :: bool
  filter_runs_by_author :: bool
  ignore_unsupported_language :: bool

record PyPlagReport =
  status :: int
  stdout :: string
  stderr :: string
  report_path :: path
  report_min_path :: "path option"

subsection \<open>The documents of a report archive\<close>

text \<open>
  A comparison file, as \<open>json.load\<close> returns it and as the zeroed record of lines
  154-164 is built. Only \<open>similarities\<close> is read.
\<close>

record comparison =
  id1 :: string
  id2 :: string
  similarities :: "(string \<times> json_number) list"
  matches :: "string list"
  first_similarity :: rat
  second_similarity :: rat

record top_comparison =
  first_submission :: string
  second_submission :: string

text \<open>
  \<open>overview.json\<close>: the three keys that the post-processing reads and writes.
  The remaining keys are carried along unchanged and left out here.
\<close>

record overview_json =
  distributions :: "(string \<times> int list) list"
  submission_ids_to_comparison_file_name :: "(string \<times> (string \<times> string) list) list"
  top_comparisons :: "top_comparison list"

text \<open>
  The text of a file is the sequence of its pieces: a JSON document of one of the
  two shapes above, or text that is not JSON. \<open>json.load\<close> accepts a text that is
  exactly one document; \<open>overview.json\<close> is taken to hold an overview and a comparison
  file a comparison whenever they parse.
\<close>

datatype piece = Raw string | OverviewDoc overview_json | ComparisonDoc comparison

type_synonym file_text = "piece list"

definition load_overview :: "file_text \<Rightarrow> error + overview_json" where
  "load_overview t = (case t of [OverviewDoc ov] \<Rightarrow> Inr ov | _ \<Rightarrow> Inl JSONDecodeError)"

definition load_comparison :: "file_text \<Rightarrow> error + comparison" where
  "load_comparison t = (case t of [ComparisonDoc c] \<Rightarrow> Inr c | _ \<Rightarrow> Inl JSONDecodeError)"

text \<open>
  An archive and the scratch directory it is extracted to are listed by their
  top-level names: each is a file with its text or a subdirectory with the files
  below it. The order of the list is the order in which \<open>iterdir\<close> enumerates.
\<close>

datatype node = File file_text | Dir "(string \<times> file_text) list"

type_synonym directory = "(string \<times> node) list"

text \<open>\<open>ZipFile.extractall\<close>: a later entry of the same name replaces an earlier one.\<close>

definition extractall :: "directory \<Rightarrow> directory" where
  "extractall z = fold (\<lambda>(name, x) d. AList.update name x d) z []"

text \<open>
  The walk of lines 208-212 writes every file below the scratch directory; a
  subdirectory without files leaves no entry.
\<close>

definition walk :: "directory \<Rightarrow> directory" where
  "walk d = filter (\<lambda>(name, x). case x of File t \<Rightarrow> True | Dir fs \<Rightarrow> fs \<noteq> []) d"

text \<open>The disk outside the temporary directories.\<close>

datatype disk_node = Directory | Archive directory | Other string

type_synonym disk = "path \<Rightarrow> disk_node option"

subsection \<open>\<open>_post_process_jplag_results\<close>\<close>

definition submissions_dict :: "PyPlagSubmission list \<Rightarrow> string \<Rightarrow> PyPlagSubmission option" where
  "submissions_dict submissions = map_of (rev (map (\<lambda>submission. (id' submission, submission)) submissions))"

definition ignore_files :: "string list" where
  "ignore_files =
     [''basecode'', ''files'', ''options.json'', ''overview.json'', ''README.txt'',
      ''submissionFileIndex.json'']"

definition SIMILARITY_DISTRIBUTION_SIZE :: int where
  "SIMILARITY_DISTRIBUTION_SIZE = 100"

text \<open>The state of the loop of lines 139-197: the scratch directory and \<open>overview\<close>.\<close>

record filter_state =
  tmpfile :: directory
  overview :: overview_json

text \<open>
  Lines 150-166: the file is opened for reading and writing, parsed, and the zeroed
  record is written at the position the read has left, the end of the file.
  The result is \<open>file_data\<close> and the directory after the \<open>with\<close> block.
\<close>

definition zeroed :: "string \<Rightarrow> string \<Rightarrow> comparison" where
  "zeroed submission_id1 submission_id2 =
     \<lparr>id1 = submission_id1, id2 = submission_id2,
      similarities = [(''MAX'', JFloat 0), (''AVG'', JFloat 0)],
      matches = [], first_similarity = 0, second_similarity = 0\<rparr>"

definition read_and_overwrite ::
  "directory \<Rightarrow> string \<Rightarrow> string \<Rightarrow> string \<Rightarrow> error + (comparison \<times> directory)" where
  "read_and_overwrite d name submission_id1 submission_id2 =
     (case map_of d name of
        None \<Rightarrow> Inl FileNotFoundError
      | Some (Dir fs) \<Rightarrow> Inl IsADirectoryError
      | Some (File t) \<Rightarrow>
          and_then (load_comparison t) (\<lambda>file_data.
            Inr (file_data,
                 AList.update name
                   (File (t @ [ComparisonDoc (zeroed submission_id1 submission_id2)])) d)))"

text \<open>Line 167, \<open>file_path.unlink()\<close>.\<close>

definition unlink :: "directory \<Rightarrow> string \<Rightarrow> directory" where
  "unlink d name = AList.delete name d"

text \<open>
  One \<open>del overview[...][a][b]\<close>: the inner dictionary is looked up, then the key
  is deleted from it in place.
\<close>

definition del_direction ::
  "(string \<times> (string \<times> string) list) list \<Rightarrow> string \<Rightarrow> string
     \<Rightarrow> error + (string \<times> (string \<times> string) list) list" where
  "del_direction idx a b =
     and_then (getitem idx a) (\<lambda>inner.
       and_then (delitem inner b) (\<lambda>inner'.
         Inr (AList.update a inner' idx)))"

text \<open>
  Lines 169-174: both deletions stand in one \<open>try\<close>; a \<open>KeyError\<close> of the first
  leaves the block before the second is reached, and \<open>except KeyError: pass\<close>
  goes on with what has been deleted so far.
\<close>

definition prune_index ::
  "(string \<times> (string \<times> string) list) list \<Rightarrow> string \<Rightarrow> string
     \<Rightarrow> (string \<times> (string \<times> string) list) list" where
  "prune_index idx submission_id1 submission_id2 =
     (case del_direction idx submission_id1 submission_id2 of
        Inl e \<Rightarrow> idx
      | Inr idx1 \<Rightarrow>
          (case del_direction idx1 submission_id2 submission_id1 of
             Inl e \<Rightarrow> idx1
           | Inr idx2 \<Rightarrow> idx2))"

text \<open>
  Lines 182-187 for one metric. The histogram is looked up first, then the
  subscript is computed from \<open>file_data\<close> (the numbers of the document are the
  Python numbers \<open>json.load\<close> has made of them), then the element is read and
  written.
\<close>

definition correct_metric ::
  "comparison \<Rightarrow> (string \<times> int list) list \<Rightarrow> string \<Rightarrow> error + (string \<times> int list) list" where
  "correct_metric file_data hists metric =
     and_then (getitem hists metric) (\<lambda>hist.
       and_then (getitem (similarities file_data) metric) (\<lambda>v.
         and_then (py_int (py_times (loads_number v) SIMILARITY_DISTRIBUTION_SIZE)) (\<lambda>k.
           and_then (py_index hist (min k (SIMILARITY_DISTRIBUTION_SIZE - 1))) (\<lambda>i.
             Inr (AList.update metric (hist[i := hist ! i - 1]) hists)))))"

text \<open>Line 180, \<open>for metric in ["MAX", "AVG"]\<close>.\<close>

fun correct_metrics ::
  "comparison \<Rightarrow> (string \<times> int list) list \<Rightarrow> string list \<Rightarrow> error + (string \<times> int list) list" where
  "correct_metrics file_data hists [] = Inr hists"
| "correct_metrics file_data hists (metric # metrics) =
     and_then (correct_metric file_data hists metric) (\<lambda>hists'.
       correct_metrics file_data hists' metrics)"

definition filter_comparison :: "string \<Rightarrow> string \<Rightarrow> top_comparison \<Rightarrow> bool" where
  "filter_comparison submission_id1 submission_id2 comp' =
     (if (first_submission comp' = submission_id1 \<and> second_submission comp' = submission_id2)
         \<or> (first_submission comp' = submission_id2 \<and> second_submission comp' = submission_id1)
      then False else True)"

text \<open>Lines 149-197, the branch of equal authors.\<close>

definition remove_collision :: "filter_state \<Rightarrow> string \<Rightarrow> string \<Rightarrow> string \<Rightarrow> error + filter_state" where
  "remove_collision st name submission_id1 submission_id2 =
     and_then (read_and_overwrite (tmpfile st) name submission_id1 submission_id2)
       (\<lambda>(file_data, d).
          let d' = unlink d name;
              idx = prune_index (submission_ids_to_comparison_file_name (overview st))
                      submission_id1 submission_id2
          in and_then (correct_metrics file_data (distributions (overview st)) [''MAX'', ''AVG''])
               (\<lambda>hists.
                  Inr \<lparr>tmpfile = d',
                       overview =
                         \<lparr>distributions = hists,
                          submission_ids_to_comparison_file_name = idx,
                          top_comparisons =
                            filter (filter_comparison submission_id1 submission_id2)
                              (top_comparisons (overview st))\<rparr>\<rparr>))"

text \<open>Lines 140-197, the body of the loop for one name of the scratch directory.\<close>

definition loop_body ::
  "(string \<Rightarrow> PyPlagSubmission option) \<Rightarrow> filter_state \<Rightarrow> string \<Rightarrow> error + filter_state" where
  "loop_body subs st name =
     (if name \<in> set ignore_files then Inr st
      else
        (case split CHR ''-'' (stem name) of
           [submission_id1, submission_id2] \<Rightarrow>
             (case subs submission_id1 of
                None \<Rightarrow> Inl KeyError
              | Some submission1 \<Rightarrow>
                  (case subs submission_id2 of
                     None \<Rightarrow> Inl KeyError
                   | Some submission2 \<Rightarrow>
                       if author submission1 = author submission2
                       then remove_collision st name submission_id1 submission_id2
                       else Inr st))
         | _ \<Rightarrow> Inl ValueError))"

text \<open>Line 139, the loop over the names that \<open>iterdir\<close> has listed.\<close>

fun filter_loop ::
  "(string \<Rightarrow> PyPlagSubmission option) \<Rightarrow> filter_state \<Rightarrow> string list \<Rightarrow> error + filter_state" where
  "filter_loop subs st [] = Inr st"
| "filter_loop subs st (name # names) =
     and_then (loop_body subs st name) (\<lambda>st'. filter_loop subs st' names)"

text \<open>Lines 128-129.\<close>

definition read_overview :: "directory \<Rightarrow> error + overview_json" where
  "read_overview d =
     (case map_of d ''overview.json'' of
        None \<Rightarrow> Inl FileNotFoundError
      | Some (Dir fs) \<Rightarrow> Inl IsADirectoryError
      | Some (File t) \<Rightarrow> load_overview t)"

text \<open>Lines 124-125, \<open>ZipFile(report)\<close>.\<close>

definition open_report :: "disk \<Rightarrow> path \<Rightarrow> error + directory" where
  "open_report dsk report =
     (case dsk report of
        None \<Rightarrow> Inl FileNotFoundError
      | Some Directory \<Rightarrow> Inl IsADirectoryError
      | Some (Other s) \<Rightarrow> Inl BadZipFile
      | Some (Archive z) \<Rightarrow> Inr z)"

text \<open>
  Lines 121-203 on the scratch directory: extraction, the loop, and the rewrite of
  \<open>overview.json\<close>. The result is the scratch directory that is zipped.
\<close>

definition filter_archive :: "PyPlagSubmission list \<Rightarrow> directory \<Rightarrow> error + directory" where
  "filter_archive submissions z =
     (let d = extractall z in
      and_then (read_overview d) (\<lambda>ov.
        and_then (filter_loop (submissions_dict submissions) \<lparr>tmpfile = d, overview = ov\<rparr> (map fst d))
          (\<lambda>st. Inr (AList.update ''overview.json'' (File [OverviewDoc (overview st)]) (tmpfile st)))))"

text \<open>
  The whole method. The disk is written once, at line 207, after everything that
  can raise inside the scratch directory; \<open>ZipFile(report_min, "w")\<close> replaces a
  file of that name and raises when the name is a directory.
\<close>

definition post_process_jplag_results ::
  "PyPlagSubmission list \<Rightarrow> path \<Rightarrow> disk \<Rightarrow> (error + path \<times> path) \<times> disk" where
  "post_process_jplag_results submissions report dsk =
     (let report_min = with_min_stem report in
      case and_then (open_report dsk report) (filter_archive submissions) of
        Inl e \<Rightarrow> (Inl e, dsk)
      | Inr d \<Rightarrow>
          (case dsk report_min of
             Some Directory \<Rightarrow> (Inl IsADirectoryError, dsk)
           | _ \<Rightarrow> (Inr (report, report_min), dsk(report_min \<mapsto> Archive (walk d)))))"

subsection \<open>The class \<open>PyPlag\<close>\<close>

definition path_exists :: "disk \<Rightarrow> path \<Rightarrow> bool" where
  "path_exists dsk p = (dsk p \<noteq> None)"

text \<open>\<open>shutil.rmtree\<close>: the directory goes with everything below it.\<close>

definition rmtree :: "disk \<Rightarrow> path \<Rightarrow> error + disk" where
  "rmtree dsk p =
     (case dsk p of
        None \<Rightarrow> Inl FileNotFoundError
      | Some Directory \<Rightarrow> Inr (\<lambda>q. if prefix p q then None else dsk q)
      | Some (Archive z) \<Rightarrow> Inl NotADirectoryError
      | Some (Other s) \<Rightarrow> Inl NotADirectoryError)"

text \<open>
  \<open>Path.mkdir(exist_ok=True, parents=True)\<close>, from the root downwards: \<open>up\<close> is
  the part of the path that is known to be a directory.
\<close>

fun mkdir_parents :: "disk \<Rightarrow> path \<Rightarrow> path \<Rightarrow> error + disk" where
  "mkdir_parents dsk up [] = Inr dsk"
| "mkdir_parents dsk up (c # cs) =
     (case dsk (up @ [c]) of
        None \<Rightarrow> mkdir_parents (dsk(up @ [c] \<mapsto> Directory)) (up @ [c]) cs
      | Some Directory \<Rightarrow> mkdir_parents dsk (up @ [c]) cs
      | Some (Archive z) \<Rightarrow> Inl (if cs = [] then FileExistsError else NotADirectoryError)
      | Some (Other s) \<Rightarrow> Inl (if cs = [] then FileExistsError else NotADirectoryError))"

record PyPlag =
  settings :: PyPlagSettings
  supported_languages :: "string list"

text \<open>Lines 20-50, \<open>PyPlag.__init__\<close>.\<close>

definition init :: "PyPlagSettings \<Rightarrow> disk \<Rightarrow> (error + PyPlag) \<times> disk" where
  "init settings' dsk =
     (let self =
        \<lparr>settings = settings',
         supported_languages =
           [''c'', ''cpp'', ''csharp'', ''emf'', ''emf-model'', ''go'', ''java'', ''javascript'',
            ''kotlin'', ''llvmir'', ''multi'', ''python3'', ''rlang'', ''rust'', ''scala'',
            ''scheme'', ''scxml'', ''swift'', ''text'', ''typescript'']\<rparr>
      in if path_exists dsk (report_dir settings')
         then (case rmtree dsk (report_dir settings') of
                 Inl e \<Rightarrow> (Inl e, dsk)
               | Inr dsk1 \<Rightarrow> (Inr self, dsk1))
         else (Inr self, dsk))"

text \<open>
  The external detector: \<open>subprocess.run\<close> of the JPlag jar. It is a parameter of
  \<open>run\<close>: given the command line, the staged submissions and the disk, it raises
  or returns the completed process and the disk it has left.
\<close>

datatype arg = Arg string | PathArg path

record CompletedProcess =
  returncode :: int
  stdout' :: string
  stderr' :: string

type_synonym staged = "(string \<times> (string \<times> string) list) list"

type_synonym detector = "arg list \<Rightarrow> staged \<Rightarrow> disk \<Rightarrow> error + CompletedProcess \<times> disk"

text \<open>
  Lines 64-69: one directory per submission, made without \<open>exist_ok\<close>, so a
  second submission of the same id raises. Ids and file names are plain names.
\<close>

fun stage :: "staged \<Rightarrow> PyPlagSubmission list \<Rightarrow> error + staged" where
  "stage submissions_dir [] = Inr submissions_dir"
| "stage submissions_dir (submission # submissions) =
     (case map_of submissions_dir (id' submission) of
        Some fs \<Rightarrow> Inl FileExistsError
      | None \<Rightarrow> stage (submissions_dir @ [(id' submission, files submission)]) submissions)"

text \<open>
  Lines 53-91, everything of \<open>run\<close> before the detector is started: the result is
  the command line, the staged submissions, the report path and the disk.
\<close>

definition prepare_run ::
  "PyPlag \<Rightarrow> string \<Rightarrow> PyPlagSubmission list \<Rightarrow> disk
     \<Rightarrow> (error + arg list \<times> staged \<times> path) \<times> disk" where
  "prepare_run self lang' submissions dsk =
     (if lang' \<notin> set (supported_languages self) \<and> \<not> ignore_unsupported_language (settings self)
      then (Inl (PyPlagException
                  (''Attempted to run JPlag on submissions in unsupported language ''
                     @ [CHR 0x27] @ lang' @ [CHR 0x27])), dsk)
      else
        (case mkdir_parents dsk [] (report_dir (settings self)) of
           Inl e \<Rightarrow> (Inl e, dsk)
         | Inr dsk1 \<Rightarrow>
             if length submissions \<le> 1 then (Inl (PyPlagException ''Too few submissions''), dsk1)
             else
               (case stage [] submissions of
                  Inl e \<Rightarrow> (Inl e, dsk1)
                | Inr submissions_dir \<Rightarrow>
                    (let extra_args = (if \<not> clustering (settings self) then [Arg ''--cluster-skip''] else [])
                     in case mkdir_parents dsk1 [] (report_dir (settings self)) of
                          Inl e \<Rightarrow> (Inl e, dsk1)
                        | Inr dsk2 \<Rightarrow>
                            (let report = report_dir (settings self) @ [lang' @ ''.jplag'']
                             in (Inr ([Arg (java_cmd (settings self)), Arg ''-jar'',
                                       PathArg (jplag_jar (settings self)), Arg ''-l'', Arg lang',
                                       Arg ''-M'', Arg ''RUN'', Arg ''-r'', PathArg report] @ extra_args,
                                      submissions_dir, report), dsk2))))))"

text \<open>Lines 52-109, \<open>PyPlag.run\<close>.\<close>

definition run ::
  "detector \<Rightarrow> PyPlag \<Rightarrow> string \<Rightarrow> PyPlagSubmission list \<Rightarrow> disk
     \<Rightarrow> (error + PyPlagReport) \<times> disk" where
  "run jplag self lang' submissions dsk =
     (case prepare_run self lang' submissions dsk of
        (Inl e, dsk2) \<Rightarrow> (Inl e, dsk2)
      | (Inr (args, submissions_dir, report), dsk2) \<Rightarrow>
          (case jplag args submissions_dir dsk2 of
             Inl e \<Rightarrow> (Inl e, dsk2)
           | Inr (result, dsk3) \<Rightarrow>
               if returncode result = 0 \<and> filter_runs_by_author (settings self)
               then (case post_process_jplag_results submissions report dsk3 of
                       (Inl e, dsk4) \<Rightarrow> (Inl e, dsk4)
                     | (Inr (report', report_min), dsk4) \<Rightarrow>
                         (Inr \<lparr>status = returncode result, stdout = stdout' result,
                               stderr = stderr' result, report_path = report',
                               report_min_path = Some report_min\<rparr>, dsk4))
               else (Inr \<lparr>status = returncode result, stdout = stdout' result,
                          stderr = stderr' result, report_path = report,
                          report_min_path = None\<rparr>, dsk3)))"

subsection \<open>The specification's wording\<close>

text \<open>
  The number that \<open>value * 100\<close> is, when it is a finite one, for a value as it
  is written in the document.
\<close>

definition product :: "json_number \<Rightarrow> rat option" where
  "product v =
     (case py_times (loads_number v) SIMILARITY_DISTRIBUTION_SIZE of
        PyInt m \<Rightarrow> Some (of_int m)
      | PyFloat (Finite r) \<Rightarrow> Some r
      | PyFloat Infinity \<Rightarrow> None
      | PyFloat NegInfinity \<Rightarrow> None
      | PyFloat NaN \<Rightarrow> None)"

text \<open>
  The bucket as the specification words it: the floor of that number, clamped to
  \<open>[0, 99]\<close>. The code's subscript is in \<open>correct_metric\<close>.
\<close>

definition clamped_bucket :: "rat \<Rightarrow> nat" where
  "clamped_bucket p = nat (max 0 (min 99 \<lfloor>p\<rfloor>))"

text \<open>A name encodes the pair \<open>(a, b)\<close> when its stem is \<open>a-b\<close>.\<close>

definition named_pair :: "string \<Rightarrow> string \<Rightarrow> string \<Rightarrow> bool" where
  "named_pair name a b = (stem name = a @ ''-'' @ b)"

text \<open>The index read in one direction: \<open>index[s][t]\<close>, if it is there.\<close>

definition index_entry ::
  "(string \<times> (string \<times> string) list) list \<Rightarrow> string \<Rightarrow> string \<Rightarrow> string option" where
  "index_entry idx s t = (case map_of idx s of None \<Rightarrow> None | Some inner \<Rightarrow> map_of inner t)"

text \<open>A descriptor of \<open>top_comparisons\<close> names the unordered pair \<open>{a, b}\<close>.\<close>

definition names_pair :: "top_comparison \<Rightarrow> string \<Rightarrow> string \<Rightarrow> bool" where
  "names_pair c a b =
     ((first_submission c = a \<and> second_submission c = b)
      \<or> (first_submission c = b \<and> second_submission c = a))"

subsection \<open>A run of the example of \<open>main\<close>\<close>

text \<open>
  The two submissions of \<open>main\<close> (lines 233-236; the dataclass takes the second
  positional argument as \<open>lang\<close> and the third as \<open>author\<close>), and a third one by
  another author.
\<close>

definition sub_one :: PyPlagSubmission where
  "sub_one = \<lparr>id' = ''one'', lang = ''t1'', author = ''python3'', files = [(''main.py'', ''def main'')]\<rparr>"

definition sub_two :: PyPlagSubmission where
  "sub_two = \<lparr>id' = ''two'', lang = ''t1'', author = ''python3'', files = [(''main.py'', ''def main'')]\<rparr>"

definition sub_three :: PyPlagSubmission where
  "sub_three = \<lparr>id' = ''three'', lang = ''t2'', author = ''java'', files = [(''main.py'', ''print'')]\<rparr>"

definition cmp_one_two :: comparison where
  "cmp_one_two =
     \<lparr>id1 = ''one'', id2 = ''two'',
      similarities = [(''MAX'', JFloat 1), (''AVG'', JFloat (755 / 1000))],
      matches = [''m''], first_similarity = 1, second_similarity = 1\<rparr>"

definition cmp_one_three :: comparison where
  "cmp_one_three =
     \<lparr>id1 = ''one'', id2 = ''three'',
      similarities = [(''MAX'', JFloat (1 / 2)), (''AVG'', JFloat (1 / 4))],
      matches = [], first_similarity = 1 / 2, second_similarity = 1 / 4\<rparr>"

definition ones :: "int list" where
  "ones = replicate 100 1"

definition example_overview :: overview_json where
  "example_overview =
     \<lparr>distributions = [(''MAX'', ones), (''AVG'', ones), (''MIN'', ones)],
      submission_ids_to_comparison_file_name =
        [(''one'', [(''two'', ''one-two.json''), (''three'', ''one-three.json'')]),
         (''two'', [(''one'', ''one-two.json'')]),
         (''three'', [(''one'', ''one-three.json'')])],
      top_comparisons =
        [\<lparr>first_submission = ''two'', second_submission = ''one''\<rparr>,
         \<lparr>first_submission = ''one'', second_submission = ''three''\<rparr>]\<rparr>"

definition example_archive :: directory where
  "example_archive =
     [(''overview.json'', File [OverviewDoc example_overview]),
      (''one-two.json'', File [ComparisonDoc cmp_one_two]),
      (''one-three.json'', File [ComparisonDoc cmp_one_three]),
      (''options.json'', File [Raw ''{}'']),
      (''files'', Dir [(''one/main.py'', [Raw ''def main''])])]"

definition example_state :: filter_state where
  "example_state = \<lparr>tmpfile = example_archive, overview = example_overview\<rparr>"

definition example_subs :: "string \<Rightarrow> PyPlagSubmission option" where
  "example_subs = submissions_dict [sub_one, sub_two, sub_three]"

text \<open>
  An index that has lost the direction \<open>one \<rightarrow> two\<close> and still has \<open>two \<rightarrow> one\<close>.
\<close>

definition pruned_overview :: overview_json where
  "pruned_overview =
     \<lparr>distributions = [(''MAX'', ones), (''AVG'', ones)],
      submission_ids_to_comparison_file_name = [(''two'', [(''one'', ''one-two.json'')])],
      top_comparisons = []\<rparr>"

definition pruned_archive :: directory where
  "pruned_archive =
     [(''overview.json'', File [OverviewDoc pruned_overview]),
      (''one-two.json'', File [ComparisonDoc cmp_one_two])]"

text \<open>
  A comparison of \<open>one\<close> and \<open>two\<close> whose \<open>MAX\<close> is written as \<open>-0.5\<close>, and the
  state of the loop on a scratch directory that holds it.
\<close>

definition cmp_negative :: comparison where
  "cmp_negative =
     \<lparr>id1 = ''one'', id2 = ''two'',
      similarities = [(''MAX'', JFloat (- 1 / 2)), (''AVG'', JFloat (29 / 100))],
      matches = [], first_similarity = 0, second_similarity = 0\<rparr>"

definition negative_state :: filter_state where
  "negative_state =
     \<lparr>tmpfile = [(''one-two.json'', File [ComparisonDoc cmp_negative])],
      overview = example_overview\<rparr>"

text \<open>The disk after a successful run of the detector on the example.\<close>

definition example_disk :: disk where
  "example_disk =
     [[''reports''] \<mapsto> Directory,
      [''reports'', ''python3.jplag''] \<mapsto> Archive example_archive]"

text \<open>An archive without its summary document, and one with an entry of three ids.\<close>

definition archive_without_overview :: directory where
  "archive_without_overview = [(''one-two.json'', File [ComparisonDoc cmp_one_two])]"

definition archive_with_bad_name :: directory where
  "archive_with_bad_name =
     [(''overview.json'', File [OverviewDoc example_overview]),
      (''one-two-three.json'', File [ComparisonDoc cmp_one_two])]"

text \<open>
  The settings of \<open>main\<close> (lines 217-220) with the defaults of the dataclass, and
  a detector that fails with exit status 1 and leaves the disk as it is.
\<close>

definition example_settings :: PyPlagSettings where
  "example_settings =
     \<lparr>java_cmd = ''/usr/lib/jvm/java-21-openjdk/bin/java'',
      jplag_jar = [''dependencies'', ''jplag.jar''],
      report_dir = [''reports''],
      clustering = True,
      filter_runs_by_author = True,
      ignore_unsupported_language = False\<rparr>"

definition failing_jplag :: detector where
  "failing_jplag args submissions_dir dsk =
     Inr (\<lparr>returncode = 1, stdout' = [], stderr' = ''no submissions''\<rparr>, dsk)"

section \<open>Properties\<close>

subsection \<open>Binary64 rounding\<close>

lemma pow2_powi: "pow2 e = 2 powi e"
  by (simp add: pow2_def power_int_def field_simps)

lemma pow2_pos: "0 < pow2 e"
  by (simp add: pow2_powi)

lemma pow2_add: "pow2 (a + b) = pow2 a * pow2 b"
  by (simp add: pow2_powi power_int_add)

lemma pow2_mono:
  assumes "a \<le> b"
  shows "pow2 a \<le> pow2 b"
proof -
  have "pow2 b = pow2 a * pow2 (b - a)" using pow2_add [of a "b - a"] by simp
  moreover have "1 \<le> pow2 (b - a)" using assms by (simp add: pow2_def)
  ultimately show ?thesis using pow2_pos [of a] by simp
qed

lemma pow2_nat: "0 \<le> e \<Longrightarrow> pow2 e = 2 ^ nat e"
  by (simp add: pow2_def)

lemma floor_log2_bounds:
  assumes "0 < a"
  shows "pow2 (floor_log2 a) \<le> a \<and> a < pow2 (floor_log2 a + 1)"
proof (cases "1 \<le> a")
  case True
  define m where "m = \<lfloor>a\<rfloor>"
  have m: "0 < m" using True by (simp add: m_def)
  define k where "k = bitlen m - 1"
  have k0: "0 \<le> k" using m bitlen_eq_zero_iff [of m] bitlen_nonneg [of m] by (simp add: k_def)
  have fl: "floor_log2 a = k" using True by (simp add: floor_log2_def k_def m_def)
  from bitlen_bounds [OF m] have lo: "2 ^ nat k \<le> m" and hi: "m < 2 ^ nat (k + 1)"
    by (simp_all add: k_def)
  have "(of_int (2 ^ nat k) :: rat) \<le> of_int m" using lo by (simp only: of_int_le_iff)
  also have "\<dots> \<le> a" by (simp add: m_def)
  finally have l: "pow2 k \<le> a" using k0 by (simp add: pow2_nat)
  have "m + 1 \<le> 2 ^ nat (k + 1)" using hi by simp
  then have "(of_int (m + 1) :: rat) \<le> of_int (2 ^ nat (k + 1))" by (simp only: of_int_le_iff)
  moreover have "a < of_int (m + 1)" unfolding m_def by linarith
  ultimately have "a < of_int (2 ^ nat (k + 1))" by (rule less_le_trans [rotated])
  then have h: "a < pow2 (k + 1)" using k0 by (simp add: pow2_nat)
  show ?thesis using l h fl by simp
next
  case False
  define c where "c = \<lceil>1 / a\<rceil>"
  have inv: "1 < 1 / a" using False assms by simp
  then have c2: "2 \<le> c" unfolding c_def by linarith
  define k where "k = bitlen (c - 1)"
  have cpos: "0 < c - 1" using c2 by simp
  have k1: "1 \<le> k" using cpos bitlen_eq_zero_iff [of "c - 1"] bitlen_nonneg [of "c - 1"] by (simp add: k_def)
  have fl: "floor_log2 a = - k" using False by (simp add: floor_log2_def k_def c_def)
  from bitlen_bounds [OF cpos] have lo: "2 ^ nat (k - 1) \<le> c - 1" and hi: "c - 1 < 2 ^ nat k"
    by (simp_all add: k_def)
  have "c \<le> 2 ^ nat k" using hi by simp
  then have "(of_int c :: rat) \<le> of_int (2 ^ nat k)" by (simp only: of_int_le_iff)
  then have "(of_int c :: rat) \<le> 2 ^ nat k" by simp
  moreover have "1 / a \<le> of_int c" by (simp add: c_def)
  ultimately have "1 / a \<le> 2 ^ nat k" by (rule order_trans [rotated])
  then have "1 \<le> 2 ^ nat k * a" using assms by (simp add: field_simps)
  then have l: "pow2 (- k) \<le> a" using k1 by (simp add: pow2_def field_simps)
  have "(of_int (2 ^ nat (k - 1)) :: rat) \<le> of_int (c - 1)" using lo by (simp only: of_int_le_iff)
  then have "(2 ^ nat (k - 1) :: rat) \<le> of_int (c - 1)" by simp
  moreover have "of_int (c - 1) < 1 / a" unfolding c_def by linarith
  ultimately have "2 ^ nat (k - 1) < 1 / a" by (rule le_less_trans)
  then have "2 ^ nat (k - 1) * a < 1" using assms by (simp add: field_simps)
  then have h: "a < pow2 (- k + 1)"
  proof (cases "k = 1")
    case True
    then show ?thesis using \<open>2 ^ nat (k - 1) * a < 1\<close> by (simp add: pow2_def)
  next
    case False
    then have "nat (- (- k + 1)) = nat (k - 1)" "\<not> 0 \<le> - k + 1" using k1 by simp_all
    then show ?thesis using \<open>2 ^ nat (k - 1) * a < 1\<close> by (simp add: pow2_def field_simps)
  qed
  show ?thesis using l h fl by simp
qed

lemma round_half_even_near:
  "\<bar>of_int (round_half_even q) - q\<bar> \<le> 1 / 2"
  unfolding round_half_even_def Let_def
  by (auto simp add: abs_if) linarith+

lemma round_half_even_int: "round_half_even (of_int n) = n"
  by (simp add: round_half_even_def)

lemma round_half_even_ge: "\<lfloor>q\<rfloor> \<le> round_half_even q"
  by (simp add: round_half_even_def Let_def)

lemma round_half_even_le: "round_half_even q \<le> \<lfloor>q\<rfloor> + 1"
  by (simp add: round_half_even_def Let_def)

lemma round_half_even_nonneg: "0 \<le> q \<Longrightarrow> 0 \<le> round_half_even q"
  using round_half_even_ge [of q] by (simp add: order_trans [of 0 "\<lfloor>q\<rfloor>"])

lemma round_half_even_bound:
  assumes "q \<le> of_int M"
  shows "round_half_even q \<le> M"
proof (cases "q = of_int M")
  case True
  then show ?thesis by (simp add: round_half_even_int)
next
  case False
  then have "q < of_int M" using assms by simp
  then have "\<lfloor>q\<rfloor> < M" by (simp add: floor_less_iff)
  then show ?thesis using round_half_even_le [of q] by simp
qed

text \<open>
  A number of \<open>[0, K]\<close>, for an integer \<open>K\<close> below \<open>2 ^ 53\<close>, is rounded to a finite
  number of \<open>[0, K]\<close>.
\<close>

lemma round_double_bounded:
  assumes x0: "0 \<le> x" and xK: "x \<le> of_int K" and K: "K < 2 ^ 53"
  shows "\<exists>p. round_double x = Finite p \<and> 0 \<le> p \<and> p \<le> of_int K"
proof (cases "x = 0")
  case True
  then show ?thesis using xK by (simp add: round_double_def)
next
  case False
  then have xp: "0 < x" using x0 by simp
  define e where "e = max (floor_log2 x) (- 1022)"
  define n where "n = round_half_even (x / pow2 (e - 52))"
  have "pow2 (floor_log2 x) \<le> x" using floor_log2_bounds [OF xp] by simp
  also have "x < 2 ^ 53"
  proof -
    have "(of_int K :: rat) < of_int (2 ^ 53)" using K by (simp only: of_int_less_iff)
    then show ?thesis using xK by simp
  qed
  finally have "pow2 (floor_log2 x) < pow2 53" by (simp add: pow2_def)
  then have "floor_log2 x < 53" using pow2_mono [of 53 "floor_log2 x"] by (cases "floor_log2 x < 53") simp_all
  then have e: "e \<le> 52" "- 1022 \<le> e" by (simp_all add: e_def)
  have n0: "0 \<le> n" unfolding n_def using xp pow2_pos [of "e - 52"]
    by (intro round_half_even_nonneg) simp
  have p2: "pow2 (e - 52) * 2 ^ nat (52 - e) = 1"
    using e by (simp add: pow2_def)
  have "x / pow2 (e - 52) = x * 2 ^ nat (52 - e)"
    using p2 pow2_pos [of "e - 52"] by (simp add: field_simps)
  also have "\<dots> \<le> of_int K * 2 ^ nat (52 - e)" using xK by simp
  also have "\<dots> = of_int (K * 2 ^ nat (52 - e))" by simp
  finally have "n \<le> K * 2 ^ nat (52 - e)" unfolding n_def by (rule round_half_even_bound)
  then have "(of_int n :: rat) \<le> of_int (K * 2 ^ nat (52 - e))" by (simp only: of_int_le_iff)
  then have "of_int n * pow2 (e - 52) \<le> of_int (K * 2 ^ nat (52 - e)) * pow2 (e - 52)"
    using pow2_pos [of "e - 52"] by (simp only: mult_le_cancel_right_pos)
  also have "\<dots> = of_int K" using p2 by (simp add: mult.commute mult.left_commute)
  finally have up: "of_int n * pow2 (e - 52) \<le> of_int K" .
  have lo: "0 \<le> of_int n * pow2 (e - 52)" using n0 pow2_pos [of "e - 52"] by simp
  have "round_double x = Finite (of_int n * pow2 (e - 52))"
    using xp e by (simp add: round_double_def Let_def e_def [symmetric] n_def [symmetric])
  then show ?thesis using up lo by simp
qed

subsection \<open>The bucket of a similarity value\<close>

lemma clamped_bucket_less: "clamped_bucket p < 100"
proof -
  have "max 0 (min 99 \<lfloor>p\<rfloor>) \<le> 99" by simp
  then show ?thesis unfolding clamped_bucket_def by linarith
qed

text \<open>
  \<open>min(int(value * 100), 99)\<close> on a histogram of 100 buckets, when the product is
  a finite number above \<open>-1\<close>: the position is the floor of the product clamped
  to \<open>[0, 99]\<close>.
\<close>

lemma py_index_bucket:
  assumes p: "product v = Some p" and lo: "- 1 < p" and len: "length h = 100"
  shows "and_then (py_int (py_times (loads_number v) SIMILARITY_DISTRIBUTION_SIZE))
           (\<lambda>k. py_index h (min k (SIMILARITY_DISTRIBUTION_SIZE - 1)))
         = Inr (clamped_bucket p)"
proof -
  define k where "k = (if 0 \<le> p then \<lfloor>p\<rfloor> else \<lceil>p\<rceil>)"
  have pi: "py_int (py_times (loads_number v) SIMILARITY_DISTRIBUTION_SIZE) = Inr k"
    using p
    by (auto simp add: product_def py_int_def k_def split: py_number.splits pyfloat.splits)
  have k0: "0 \<le> k"
  proof (cases "0 \<le> p")
    case True
    then show ?thesis by (simp add: k_def)
  next
    case False
    then have "\<lceil>p\<rceil> = 0" using lo by (simp add: ceiling_eq_iff)
    then show ?thesis using False by (simp add: k_def)
  qed
  have km: "max 0 \<lfloor>p\<rfloor> = k"
  proof (cases "0 \<le> p")
    case True
    then show ?thesis by (simp add: k_def)
  next
    case False
    then have "\<lceil>p\<rceil> = 0" "\<lfloor>p\<rfloor> < 0" using lo by (simp_all add: ceiling_eq_iff floor_less_iff)
    then show ?thesis using False by (simp add: k_def)
  qed
  have "max 0 (min 99 f) = min (max 0 f) 99" for f :: int by simp
  then have cb: "clamped_bucket p = nat (min k 99)"
    unfolding clamped_bucket_def km [symmetric] by (rule arg_cong)
  have "0 \<le> min k 99" "min k 99 < 100" using k0 by simp_all
  then have "py_index h (min k 99) = Inr (nat (min k 99))"
    using len by (simp add: py_index_def Let_def)
  then show ?thesis
    unfolding pi by (simp add: and_then_def SIMILARITY_DISTRIBUTION_SIZE_def cb)
qed

lemma correct_metric_ok:
  assumes "map_of hists m = Some h" and "map_of (similarities fd) m = Some v"
    and "product v = Some p" and "- 1 < p" and "length h = 100"
  shows "correct_metric fd hists m
           = Inr (AList.update m (h[clamped_bucket p := h ! clamped_bucket p - 1]) hists)"
proof -
  note b = py_index_bucket [OF assms(3,4,5)]
  obtain k where k: "py_int (py_times (loads_number v) SIMILARITY_DISTRIBUTION_SIZE) = Inr k"
    and i: "py_index h (min k (SIMILARITY_DISTRIBUTION_SIZE - 1)) = Inr (clamped_bucket p)"
    using b by (cases "py_int (py_times (loads_number v) SIMILARITY_DISTRIBUTION_SIZE)")
               (simp_all add: and_then_def)
  show ?thesis
    using assms(1,2) by (simp add: correct_metric_def getitem_def and_then_def k i)
qed

text \<open>
  The products of the values \<open>0.755\<close>, \<open>1.0\<close> and \<open>0.29\<close>: the first two are
  \<open>75.5\<close> and \<open>100.0\<close>, the third is the binary64 number next below \<open>29\<close>.
\<close>

lemma product_examples:
  "product (JFloat (755 / 1000)) = Some (151 / 2)"
  "product (JFloat 1) = Some 100"
  "product (JFloat (29 / 100)) = Some (8162774324609023 / 281474976710656)"
  by code_simp+

text \<open>
  More products as Python computes them: \<open>0.03 * 100\<close> is \<open>3.0\<close> although the
  binary64 number of \<open>0.03\<close> is below \<open>3 / 100\<close>, \<open>0.57 * 100\<close> is
  \<open>56.99999999999999\<close>, and \<open>0.07 * 100\<close> is \<open>7.000000000000001\<close>.
\<close>

lemma product_rounding_examples:
  "product (JFloat (3 / 100)) = Some 3"
  "product (JFloat (57 / 100)) = Some (8022036836253695 / 140737488355328)"
  "product (JFloat (7 / 100)) = Some (7881299347898369 / 1125899906842624)"
  "product (JInt 1) = Some 100"
  "product JInfinity = None" "product JNaN = None"
  by code_simp+

lemma clamped_bucket_examples:
  "clamped_bucket (151 / 2) = 75" "clamped_bucket 100 = 99"
  "clamped_bucket (8162774324609023 / 281474976710656) = 28"
  by code_simp+

text \<open>
  A value of the data model, a number of \<open>[0, 1]\<close>, has a finite product in
  \<open>[0, 100]\<close>, whether it is written as a \<open>float\<close> or as an \<open>int\<close>.
\<close>

lemma product_unit_interval:
  assumes "0 \<le> r" and "r \<le> 1"
  shows "\<exists>p. product (JFloat r) = Some p \<and> 0 \<le> p \<and> p \<le> 100"
proof -
  from round_double_bounded [of r 1] assms
  obtain q where q: "round_double r = Finite q" "0 \<le> q" "q \<le> 1" by auto
  have "0 \<le> q * 100" "q * 100 \<le> of_int 100" using q(2,3) by simp_all
  from round_double_bounded [OF this]
  obtain p where p: "round_double (q * 100) = Finite p" "0 \<le> p" "p \<le> 100" by auto
  show ?thesis
    using q(1) p
    by (simp add: product_def loads_number_def py_times_def SIMILARITY_DISTRIBUTION_SIZE_def)
qed

lemma product_int: "product (JInt n) = Some (of_int (n * 100))"
  by (simp add: product_def loads_number_def py_times_def SIMILARITY_DISTRIBUTION_SIZE_def)

text \<open>
  There is no lower clamp: a product of \<open>-1\<close> or below gives a negative
  subscript, which counts from the end of the histogram, or raises \<open>IndexError\<close>
  below \<open>-100\<close>.
\<close>

lemma py_index_negative:
  assumes p: "product v = Some p" and lo: "p \<le> - 1" and len: "length h = 100"
  shows "and_then (py_int (py_times (loads_number v) SIMILARITY_DISTRIBUTION_SIZE))
           (\<lambda>k. py_index h (min k (SIMILARITY_DISTRIBUTION_SIZE - 1)))
         = (if - 100 \<le> \<lceil>p\<rceil> then Inr (nat (100 + \<lceil>p\<rceil>)) else Inl IndexError)"
proof -
  have neg: "\<not> 0 \<le> p" using lo by simp
  have pi: "py_int (py_times (loads_number v) SIMILARITY_DISTRIBUTION_SIZE) = Inr \<lceil>p\<rceil>"
    using p neg
    by (auto simp add: product_def py_int_def split: py_number.splits pyfloat.splits)
  define k where "k = \<lceil>p\<rceil>"
  have c: "k \<le> - 1" using lo by (simp add: k_def ceiling_le_iff)
  then have m: "min k 99 = k" by simp
  have "py_index h k = (if - 100 \<le> k then Inr (nat (100 + k)) else Inl IndexError)"
    using c len by (auto simp add: py_index_def Let_def)
  then show ?thesis
    unfolding pi k_def [symmetric] by (simp add: and_then_def SIMILARITY_DISTRIBUTION_SIZE_def m)
qed

subsection \<open>The step on a collision\<close>

lemma remove_collision_ok:
  assumes fl: "map_of (tmpfile st) name = Some (File [ComparisonDoc file_data])"
    and ms: "correct_metrics file_data (distributions (overview st)) [''MAX'', ''AVG''] = Inr hists"
  shows "remove_collision st name a b =
           Inr \<lparr>tmpfile = unlink (AList.update name (File [ComparisonDoc file_data, ComparisonDoc (zeroed a b)]) (tmpfile st)) name,
                overview = \<lparr>distributions = hists,
                   submission_ids_to_comparison_file_name =
                     prune_index (submission_ids_to_comparison_file_name (overview st)) a b,
                   top_comparisons = filter (filter_comparison a b) (top_comparisons (overview st))\<rparr>\<rparr>"
proof -
  have rd: "read_and_overwrite (tmpfile st) name a b
              = Inr (file_data, AList.update name (File [ComparisonDoc file_data, ComparisonDoc (zeroed a b)]) (tmpfile st))"
    using fl by (simp add: read_and_overwrite_def load_comparison_def and_then_def)
  show ?thesis
    by (simp add: remove_collision_def rd ms and_then_def Let_def del: correct_metrics.simps)
qed

lemma loop_body_collision:
  assumes "name \<notin> set ignore_files"
    and "split CHR ''-'' (stem name) = [a, b]"
    and "subs a = Some s1" and "subs b = Some s2"
    and "author s1 = author s2"
  shows "loop_body subs st name = remove_collision st name a b"
  using assms by (simp add: loop_body_def)

text \<open>
  C1, as amended. When the loop meets a comparison file whose two submissions
  have the same author, the \<open>MAX\<close> and \<open>AVG\<close> values are those of the file as it
  stood before the step (the file of the state \<open>st\<close>, not the zeroed record
  written into it). The bucket is \<open>min(int(value * 100), 99)\<close>, where
  \<open>value * 100\<close> is the binary64 product. When that product is a finite number
  above \<open>-1\<close>, as it is for every value of \<open>[0, 1]\<close>, each of the two histograms
  loses exactly one at the floor of the product clamped to \<open>[0, 99]\<close>, and every
  other bucket and every other metric is as before. The value 0.755 falls into
  bucket 75 and 1.0 into bucket 99; 0.29 falls into bucket 28, because its
  product is below 29. The histograms have their 100 buckets.
\<close>

theorem collision_decrements_buckets:
  assumes ign: "name \<notin> set ignore_files"
    and pair: "split CHR ''-'' (stem name) = [a, b]"
    and s1: "subs a = Some s1" and s2: "subs b = Some s2"
    and coll: "author s1 = author s2"
    and fl: "map_of (tmpfile st) name = Some (File [ComparisonDoc file_data])"
    and vmax: "map_of (similarities file_data) ''MAX'' = Some vmax"
    and vavg: "map_of (similarities file_data) ''AVG'' = Some vavg"
    and pmax: "product vmax = Some pmax" "- 1 < pmax"
    and pavg: "product vavg = Some pavg" "- 1 < pavg"
    and hmax: "map_of (distributions (overview st)) ''MAX'' = Some hmax"
    and havg: "map_of (distributions (overview st)) ''AVG'' = Some havg"
    and len: "length hmax = 100" "length havg = 100"
  shows "\<exists>st'. loop_body subs st name = Inr st'
           \<and> map_of (distributions (overview st')) ''MAX''
               = Some (hmax[clamped_bucket pmax := hmax ! clamped_bucket pmax - 1])
           \<and> map_of (distributions (overview st')) ''AVG''
               = Some (havg[clamped_bucket pavg := havg ! clamped_bucket pavg - 1])
           \<and> (\<forall>m. m \<noteq> ''MAX'' \<and> m \<noteq> ''AVG''
                 \<longrightarrow> map_of (distributions (overview st')) m = map_of (distributions (overview st)) m)
           \<and> clamped_bucket pmax < 100 \<and> clamped_bucket pavg < 100
           \<and> product (JFloat (755 / 1000)) = Some (151 / 2) \<and> clamped_bucket (151 / 2) = 75
           \<and> product (JFloat 1) = Some 100 \<and> clamped_bucket 100 = 99
           \<and> product (JFloat (29 / 100)) = Some (8162774324609023 / 281474976710656)
           \<and> clamped_bucket (8162774324609023 / 281474976710656) = 28
           \<and> (\<forall>r. 0 \<le> r \<and> r \<le> 1 \<longrightarrow> (\<exists>p. product (JFloat r) = Some p \<and> 0 \<le> p \<and> p \<le> 100))"
proof -
  let ?h1 = "AList.update ''MAX'' (hmax[clamped_bucket pmax := hmax ! clamped_bucket pmax - 1])
               (distributions (overview st))"
  let ?h2 = "AList.update ''AVG'' (havg[clamped_bucket pavg := havg ! clamped_bucket pavg - 1]) ?h1"
  have m1: "correct_metric file_data (distributions (overview st)) ''MAX'' = Inr ?h1"
    by (rule correct_metric_ok [OF hmax vmax pmax len(1)])
  have "map_of ?h1 ''AVG'' = Some havg"
    using havg by (simp add: update_conv')
  then have m2: "correct_metric file_data ?h1 ''AVG'' = Inr ?h2"
    by (rule correct_metric_ok [OF _ vavg pavg len(2)])
  have ms: "correct_metrics file_data (distributions (overview st)) [''MAX'', ''AVG''] = Inr ?h2"
    by (simp add: m1 m2 and_then_def)
  have body: "loop_body subs st name = remove_collision st name a b"
    by (rule loop_body_collision [OF ign pair s1 s2 coll])
  note rc = remove_collision_ok [OF fl ms, of a b]
  have mx: "map_of ?h2 ''MAX'' = Some (hmax[clamped_bucket pmax := hmax ! clamped_bucket pmax - 1])"
    by (simp add: update_conv')
  have av: "map_of ?h2 ''AVG'' = Some (havg[clamped_bucket pavg := havg ! clamped_bucket pavg - 1])"
    by (simp add: update_conv')
  have other: "\<forall>m. m \<noteq> ''MAX'' \<and> m \<noteq> ''AVG'' \<longrightarrow> map_of ?h2 m = map_of (distributions (overview st)) m"
    by (simp add: update_conv')
  have unit: "\<forall>r. 0 \<le> r \<and> r \<le> 1 \<longrightarrow> (\<exists>p. product (JFloat r) = Some p \<and> 0 \<le> p \<and> p \<le> 100)"
    using product_unit_interval by blast
  show ?thesis
    unfolding body rc
    using mx av other unit product_examples clamped_bucket_examples clamped_bucket_less by simp
qed

subsection \<open>Facts of the example\<close>

lemma example_not_ignored: "''one-two.json'' \<notin> set ignore_files" by (simp add: ignore_files_def)
lemma example_pair: "split CHR ''-'' (stem ''one-two.json'') = [''one'', ''two'']" by (simp add: stem_def)
lemma example_sub_one: "example_subs ''one'' = Some sub_one"
    by (simp add: example_subs_def submissions_dict_def sub_one_def sub_two_def sub_three_def)
lemma example_sub_two: "example_subs ''two'' = Some sub_two"
    by (simp add: example_subs_def submissions_dict_def sub_one_def sub_two_def sub_three_def)
lemma example_same_author: "author sub_one = author sub_two" by (simp add: sub_one_def sub_two_def)
lemma example_file: "map_of (tmpfile example_state) ''one-two.json'' = Some (File [ComparisonDoc cmp_one_two])"
    by (simp add: example_state_def example_archive_def)
lemma example_vmax: "map_of (similarities cmp_one_two) ''MAX'' = Some (JFloat 1)"
  by (simp add: cmp_one_two_def)
lemma example_vavg: "map_of (similarities cmp_one_two) ''AVG'' = Some (JFloat (755 / 1000))"
  by (simp add: cmp_one_two_def)
lemma example_hmax: "map_of (distributions (overview example_state)) ''MAX'' = Some ones"
    by (simp add: example_state_def example_overview_def)
lemma example_havg: "map_of (distributions (overview example_state)) ''AVG'' = Some ones"
    by (simp add: example_state_def example_overview_def)
lemma length_ones: "length ones = 100" by (simp add: ones_def)
lemma example_hmin: "map_of (distributions (overview example_state)) ''MIN'' = Some ones"
    by (simp add: example_state_def example_overview_def)


lemma nth_ones: "ones ! 99 = 1" "ones ! 75 = 1" by (simp_all add: ones_def)

theorem collision_decrements_buckets_witness:
  "\<exists>st'. loop_body example_subs example_state ''one-two.json'' = Inr st'
        \<and> map_of (distributions (overview st')) ''MAX'' = Some (ones[99 := 0])
        \<and> map_of (distributions (overview st')) ''AVG'' = Some (ones[75 := 0])
        \<and> map_of (distributions (overview st')) ''MIN'' = Some ones"
proof -
  have pm: "product (JFloat 1) = Some 100" "- 1 < (100 :: rat)"
    by (rule product_examples) simp
  have pa: "product (JFloat (755 / 1000)) = Some (151 / 2)" "- 1 < (151 / 2 :: rat)"
    by (rule product_examples) simp
  have inst: "\<exists>st'. loop_body example_subs example_state ''one-two.json'' = Inr st'
             \<and> map_of (distributions (overview st')) ''MAX''
                 = Some (ones[clamped_bucket 100 := ones ! clamped_bucket 100 - 1])
             \<and> map_of (distributions (overview st')) ''AVG''
                 = Some (ones[clamped_bucket (151 / 2) := ones ! clamped_bucket (151 / 2) - 1])
             \<and> (\<forall>m. m \<noteq> ''MAX'' \<and> m \<noteq> ''AVG''
                   \<longrightarrow> map_of (distributions (overview st')) m = map_of (distributions (overview example_state)) m)
             \<and> clamped_bucket 100 < 100 \<and> clamped_bucket (151 / 2) < 100
             \<and> product (JFloat (755 / 1000)) = Some (151 / 2) \<and> clamped_bucket (151 / 2) = 75
             \<and> product (JFloat 1) = Some 100 \<and> clamped_bucket 100 = 99
             \<and> product (JFloat (29 / 100)) = Some (8162774324609023 / 281474976710656)
             \<and> clamped_bucket (8162774324609023 / 281474976710656) = 28
             \<and> (\<forall>r. 0 \<le> r \<and> r \<le> 1 \<longrightarrow> (\<exists>p. product (JFloat r) = Some p \<and> 0 \<le> p \<and> p \<le> 100))"
    by (rule collision_decrements_buckets [OF example_not_ignored example_pair example_sub_one example_sub_two example_same_author example_file example_vmax example_vavg pm pa example_hmax example_havg length_ones length_ones])
  from inst obtain st' where a: "loop_body example_subs example_state ''one-two.json'' = Inr st'"
    and b: "map_of (distributions (overview st')) ''MAX'' = Some (ones[clamped_bucket 100 := ones ! clamped_bucket 100 - 1])"
    and c: "map_of (distributions (overview st')) ''AVG'' = Some (ones[clamped_bucket (151 / 2) := ones ! clamped_bucket (151 / 2) - 1])"
    and d: "\<forall>m. m \<noteq> ''MAX'' \<and> m \<noteq> ''AVG''
                 \<longrightarrow> map_of (distributions (overview st')) m = map_of (distributions (overview example_state)) m"
    and e: "clamped_bucket (151 / 2) = 75" "clamped_bucket 100 = 99"
    by (elim exE conjE)
  have mn: "map_of (distributions (overview st')) ''MIN'' = Some ones"
    using d example_hmin by simp
  have b': "map_of (distributions (overview st')) ''MAX'' = Some (ones[99 := 0])"
    using b unfolding e by (simp add: nth_ones)
  have c': "map_of (distributions (overview st')) ''AVG'' = Some (ones[75 := 0])"
    using c unfolding e by (simp add: nth_ones)
  show ?thesis using a b' c' mn by blast
qed

text \<open>
  The claim as stated fails on a record whose \<open>MAX\<close> is written \<open>-0.5\<close> and whose
  \<open>AVG\<close> is written \<open>0.29\<close>. The product of \<open>MAX\<close> is \<open>-50.0\<close>, \<open>int\<close> makes \<open>-50\<close>
  of it, \<open>min(-50, 99)\<close> is \<open>-50\<close>, and the subscript \<open>-50\<close> counts from the end of
  the list: position 50 loses one, where the clamp to \<open>[0, 99]\<close> names bucket 0.
  The product of \<open>AVG\<close> is the binary64 number next below 29: bucket 28 loses
  one, where the floor of the exact product \<open>0.29 * 100 = 29\<close> names bucket 29.
\<close>

theorem negative_value_wraps_counterexample:
  "loop_body example_subs negative_state ''one-two.json''
     = Inr \<lparr>tmpfile = [],
            overview =
              \<lparr>distributions = [(''MAX'', ones[50 := 0]), (''AVG'', ones[28 := 0]), (''MIN'', ones)],
               submission_ids_to_comparison_file_name =
                 [(''one'', [(''three'', ''one-three.json'')]), (''two'', []),
                  (''three'', [(''one'', ''one-three.json'')])],
               top_comparisons = [\<lparr>first_submission = ''one'', second_submission = ''three''\<rparr>]\<rparr>\<rparr>
   \<and> map_of (similarities cmp_negative) ''MAX'' = Some (JFloat (- 1 / 2))
   \<and> map_of (similarities cmp_negative) ''AVG'' = Some (JFloat (29 / 100))
   \<and> product (JFloat (- 1 / 2)) = Some (- 50)
   \<and> clamped_bucket (- 50) = 0
   \<and> clamped_bucket (29 / 100 * 100) = 29
   \<and> ones[50 := 0] \<noteq> ones[0 := ones ! 0 - 1]
   \<and> ones[28 := 0] \<noteq> ones[29 := ones ! 29 - 1]"
  by code_simp


subsection \<open>The write before the deletion\<close>






subsection \<open>The index after a collision\<close>

text \<open>
  C2. Both deletions stand in one \<open>try\<close> block. When the direction
  \<open>id2 \<rightarrow> id1\<close> is missing, \<open>id1 \<rightarrow> id2\<close> has been deleted before the
  \<open>KeyError\<close>; when \<open>id1 \<rightarrow> id2\<close> is missing, the \<open>KeyError\<close> of the first
  \<open>del\<close> skips the second, and \<open>id2 \<rightarrow> id1\<close> stays in the index although the
  entry is deleted. Here the step runs on an index that has only \<open>two \<rightarrow> one\<close>.
\<close>

theorem missing_first_direction_keeps_second:
  "loop_body (submissions_dict [sub_one, sub_two])
     \<lparr>tmpfile = pruned_archive, overview = pruned_overview\<rparr> ''one-two.json''
     = Inr \<lparr>tmpfile = [(''overview.json'', File [OverviewDoc pruned_overview])],
            overview =
              \<lparr>distributions = [(''MAX'', ones[99 := 0]), (''AVG'', ones[75 := 0])],
               submission_ids_to_comparison_file_name = [(''two'', [(''one'', ''one-two.json'')])],
               top_comparisons = []\<rparr>\<rparr>
   \<and> prune_index [(''two'', [(''one'', ''one-two.json'')])] ''one'' ''two''
       = [(''two'', [(''one'', ''one-two.json'')])]
   \<and> prune_index [(''one'', [(''two'', ''one-two.json'')])] ''one'' ''two'' = [(''one'', [])]"
  by code_simp

text \<open>
  C3. The same run through the whole filter: the archive that is written has no
  entry \<open>one-two.json\<close>, and the index of its \<open>overview.json\<close> still refers to it
  under \<open>two\<close>.
\<close>

theorem index_keeps_reference_to_removed_pair:
  "filter_archive [sub_one, sub_two] pruned_archive
     = Inr [(''overview.json'', File [OverviewDoc
              \<lparr>distributions = [(''MAX'', ones[99 := 0]), (''AVG'', ones[75 := 0])],
               submission_ids_to_comparison_file_name = [(''two'', [(''one'', ''one-two.json'')])],
               top_comparisons = []\<rparr>])]"
  by code_simp

subsection \<open>The loop over the scratch directory\<close>

lemma remove_collision_result:
  assumes "remove_collision st name a b = Inr st'"
  shows "tmpfile st' = AList.delete name (tmpfile st)"
    and "top_comparisons (overview st') = filter (filter_comparison a b) (top_comparisons (overview st))"
    and "submission_ids_to_comparison_file_name (overview st')
           = prune_index (submission_ids_to_comparison_file_name (overview st)) a b"
  using assms
  by (auto simp add: remove_collision_def read_and_overwrite_def and_then_def Let_def unlink_def
        delete_update_same
      split: sum.splits option.splits node.splits)

lemma loop_body_ignored: "name \<in> set ignore_files \<Longrightarrow> loop_body subs st name = Inr st"
  by (simp add: loop_body_def)

lemma loop_body_cases:
  assumes "loop_body subs st name = Inr st'" and "name \<notin> set ignore_files"
  shows "\<exists>a b s1 s2. split CHR ''-'' (stem name) = [a, b] \<and> subs a = Some s1 \<and> subs b = Some s2
           \<and> (author s1 = author s2 \<longrightarrow> remove_collision st name a b = Inr st')
           \<and> (author s1 \<noteq> author s2 \<longrightarrow> st' = st)"
  using assms
  by (auto simp add: loop_body_def split: list.splits option.splits if_splits)

lemma loop_body_keeps_others:
  assumes "loop_body subs st name = Inr st'" and "n \<noteq> name"
  shows "map_of (tmpfile st') n = map_of (tmpfile st) n"
proof (cases "name \<in> set ignore_files")
  case True
  then show ?thesis using assms(1) by (simp add: loop_body_ignored)
next
  case False
  from loop_body_cases [OF assms(1) False] obtain a b s1 s2 where
    s: "subs a = Some s1" "subs b = Some s2" and
    c: "author s1 = author s2 \<longrightarrow> remove_collision st name a b = Inr st'"
       "author s1 \<noteq> author s2 \<longrightarrow> st' = st"
    by blast
  show ?thesis
  proof (cases "author s1 = author s2")
    case True
    then have "tmpfile st' = AList.delete name (tmpfile st)"
      using c remove_collision_result(1) by simp
    then show ?thesis using assms(2) by simp
  next
    case False
    then show ?thesis using c by simp
  qed
qed

lemma loop_body_absent:
  assumes "loop_body subs st name = Inr st'" and "map_of (tmpfile st) n = None"
  shows "map_of (tmpfile st') n = None"
proof (cases "n = name")
  case False
  then show ?thesis using loop_body_keeps_others [OF assms(1)] assms(2) by simp
next
  case True
  show ?thesis
  proof (cases "name \<in> set ignore_files")
    case True
    then show ?thesis using assms by (simp add: loop_body_ignored)
  next
    case False
    from loop_body_cases [OF assms(1) False] obtain a b s1 s2 where
      s: "subs a = Some s1" "subs b = Some s2" and
      c: "author s1 = author s2 \<longrightarrow> remove_collision st name a b = Inr st'"
         "author s1 \<noteq> author s2 \<longrightarrow> st' = st"
      by blast
    show ?thesis
    proof (cases "author s1 = author s2")
      case True
      then have "tmpfile st' = AList.delete name (tmpfile st)"
        using c remove_collision_result(1) by simp
      then show ?thesis using \<open>n = name\<close> by (simp add: delete_conv')
    next
      case False
      then show ?thesis using c assms(2) by simp
    qed
  qed
qed

lemma filter_loop_absent:
  "filter_loop subs st names = Inr st' \<Longrightarrow> map_of (tmpfile st) n = None
     \<Longrightarrow> map_of (tmpfile st') n = None"
proof (induction names arbitrary: st)
  case Nil
  then show ?case by simp
next
  case (Cons name names)
  from Cons.prems(1) obtain st1 where b: "loop_body subs st name = Inr st1"
    and l: "filter_loop subs st1 names = Inr st'"
    by (auto simp add: and_then_def split: sum.splits)
  show ?case
    by (rule Cons.IH [OF l loop_body_absent [OF b Cons.prems(2)]])
qed

lemma filter_loop_collision_removed:
  "filter_loop subs st names = Inr st' \<Longrightarrow> n \<in> set names \<Longrightarrow> n \<notin> set ignore_files
     \<Longrightarrow> \<exists>a b s1 s2. split CHR ''-'' (stem n) = [a, b] \<and> subs a = Some s1 \<and> subs b = Some s2
           \<and> (author s1 = author s2 \<longrightarrow> map_of (tmpfile st') n = None)"
proof (induction names arbitrary: st)
  case Nil
  then show ?case by simp
next
  case (Cons name names)
  from Cons.prems(1) obtain st1 where b: "loop_body subs st name = Inr st1"
    and l: "filter_loop subs st1 names = Inr st'"
    by (auto simp add: and_then_def split: sum.splits)
  show ?case
  proof (cases "n = name")
    case True
    from loop_body_cases [OF b] Cons.prems(3) True obtain a b' s1 s2 where
      sp: "split CHR ''-'' (stem n) = [a, b']" and s1: "subs a = Some s1" and s2: "subs b' = Some s2"
      and c: "author s1 = author s2 \<longrightarrow> remove_collision st name a b' = Inr st1"
      by blast
    have "author s1 = author s2 \<longrightarrow> map_of (tmpfile st') n = None"
    proof
      assume "author s1 = author s2"
      then have "tmpfile st1 = AList.delete name (tmpfile st)"
        using c remove_collision_result(1) by simp
      then have "map_of (tmpfile st1) n = None" using True by (simp add: delete_conv')
      then show "map_of (tmpfile st') n = None" by (rule filter_loop_absent [OF l])
    qed
    then show ?thesis using sp s1 s2 by blast
  next
    case False
    then have "n \<in> set names" using Cons.prems(2) by simp
    then show ?thesis by (rule Cons.IH [OF l _ Cons.prems(3)])
  qed
qed

subsection \<open>Pair names and the result of the filter\<close>

lemma split_not_Nil: "split c xs \<noteq> []"
  by (induction xs) (auto split: list.splits)

lemma length_split: "length (split c xs) = Suc (length (filter (\<lambda>x. x = c) xs))"
  using split_not_Nil [of c]
  by (induction xs) (auto split: list.splits)

lemma split_without: "c \<notin> set xs \<Longrightarrow> split c xs = [xs]"
  by (induction xs) auto

lemma split_append: "c \<notin> set a \<Longrightarrow> split c (a @ c # b) = a # split c b"
  by (induction a) auto

lemma split_pair:
  assumes "split c (a @ c # b) = [a', b']"
  shows "a' = a \<and> b' = b"
proof -
  have "length (split c (a @ c # b)) = 2" using assms by simp
  then have f: "filter (\<lambda>x. x = c) a = []" "filter (\<lambda>x. x = c) b = []"
    by (simp_all add: length_split)
  have na: "c \<notin> set a" using f(1) by (auto simp add: filter_empty_conv)
  have nb: "c \<notin> set b" using f(2) by (auto simp add: filter_empty_conv)
  have "split c (a @ c # b) = [a, b]"
    by (simp add: split_append [OF na] split_without [OF nb])
  then show ?thesis using assms by simp
qed

lemma ignore_files_no_dash: "n \<in> set ignore_files \<Longrightarrow> CHR ''-'' \<notin> set (stem n)"
  by (auto simp add: ignore_files_def stem_def)

lemma named_pair_not_ignored: "named_pair n a b \<Longrightarrow> n \<notin> set ignore_files"
  using ignore_files_no_dash [of n] by (auto simp add: named_pair_def)

lemma filter_archive_Inr:
  assumes "filter_archive submissions z = Inr d"
  shows "\<exists>ov st. read_overview (extractall z) = Inr ov
           \<and> filter_loop (submissions_dict submissions) \<lparr>tmpfile = extractall z, overview = ov\<rparr>
                (map fst (extractall z)) = Inr st
           \<and> d = AList.update ''overview.json'' (File [OverviewDoc (overview st)]) (tmpfile st)"
  using assms
  by (auto simp add: filter_archive_def and_then_def Let_def split: sum.splits)

lemma filter_loop_names:
  assumes "filter_loop subs st names = Inr st'" and "n \<in> fst ` set (tmpfile st')"
  shows "n \<in> fst ` set (tmpfile st)"
proof (rule ccontr)
  assume "n \<notin> fst ` set (tmpfile st)"
  then have "map_of (tmpfile st) n = None" by (simp add: map_of_eq_None_iff)
  then have "map_of (tmpfile st') n = None" by (rule filter_loop_absent [OF assms(1)])
  then show False using assms(2) by (simp add: map_of_eq_None_iff)
qed

lemma filter_archive_no_collision:
  assumes ok: "filter_archive submissions z = Inr d"
    and n: "n \<in> fst ` set d"
    and np: "named_pair n a b"
    and s1: "submissions_dict submissions a = Some s1"
    and s2: "submissions_dict submissions b = Some s2"
    and au: "author s1 = author s2"
  shows False
proof -
  from filter_archive_Inr [OF ok] obtain ov st where
    l: "filter_loop (submissions_dict submissions) \<lparr>tmpfile = extractall z, overview = ov\<rparr>
          (map fst (extractall z)) = Inr st"
    and d: "d = AList.update ''overview.json'' (File [OverviewDoc (overview st)]) (tmpfile st)"
    by blast
  have ni: "n \<notin> set ignore_files" by (rule named_pair_not_ignored [OF np])
  then have "n \<noteq> ''overview.json''" by (auto simp add: ignore_files_def)
  then have nst: "n \<in> fst ` set (tmpfile st)" using n d by (simp add: dom_update)
  then have "n \<in> fst ` set (tmpfile \<lparr>tmpfile = extractall z, overview = ov\<rparr>)"
    by (rule filter_loop_names [OF l])
  then have "n \<in> set (map fst (extractall z))" by simp
  from filter_loop_collision_removed [OF l this ni] obtain a' b' s1' s2' where
    sp: "split CHR ''-'' (stem n) = [a', b']"
    and s: "submissions_dict submissions a' = Some s1'" "submissions_dict submissions b' = Some s2'"
    and r: "author s1' = author s2' \<longrightarrow> map_of (tmpfile st) n = None"
    by blast
  have "a' = a \<and> b' = b"
    using sp np split_pair [of "CHR ''-''" a b a' b'] by (simp add: named_pair_def)
  then have "map_of (tmpfile st) n = None" using r s s1 s2 au by simp
  then show False using nst by (simp add: map_of_eq_None_iff)
qed

lemma walk_names: "fst ` set (walk d) \<subseteq> fst ` set d"
  by (auto simp add: walk_def)

lemma post_process_Inr:
  assumes "post_process_jplag_results submissions report dsk = (Inr res, dsk')"
  shows "\<exists>z d. dsk report = Some (Archive z) \<and> filter_archive submissions z = Inr d
           \<and> dsk' = dsk(with_min_stem report \<mapsto> Archive (walk d))
           \<and> res = (report, with_min_stem report)"
  using assms
  by (auto simp add: post_process_jplag_results_def open_report_def and_then_def Let_def
      split: sum.splits option.splits disk_node.splits)

lemma example_filter_archive:
  "filter_archive [sub_one, sub_two, sub_three] example_archive
     = Inr [(''overview.json'', File [OverviewDoc
              \<lparr>distributions = [(''MAX'', ones[99 := 0]), (''AVG'', ones[75 := 0]), (''MIN'', ones)],
               submission_ids_to_comparison_file_name =
                 [(''one'', [(''three'', ''one-three.json'')]), (''two'', []),
                  (''three'', [(''one'', ''one-three.json'')])],
               top_comparisons = [\<lparr>first_submission = ''one'', second_submission = ''three''\<rparr>]\<rparr>]),
            (''one-three.json'', File [ComparisonDoc cmp_one_three]),
            (''options.json'', File [Raw ''{}'']),
            (''files'', Dir [(''one/main.py'', [Raw ''def main''])])]"
  by code_simp

text \<open>
  C4. For two submissions \<open>a\<close> and \<open>b\<close> of equal authors, whenever the filter
  completes, the scratch directory that is zipped has no entry whose stem is
  \<open>a-b\<close> or \<open>b-a\<close>, and neither has the archive that is written to the
  minimized path.
\<close>

theorem collisions_absent_from_output:
  assumes s1: "submissions_dict submissions a = Some s1"
    and s2: "submissions_dict submissions b = Some s2"
    and au: "author s1 = author s2"
  shows "(\<forall>z d. filter_archive submissions z = Inr d
            \<longrightarrow> (\<forall>n \<in> fst ` set d. \<not> named_pair n a b \<and> \<not> named_pair n b a))
       \<and> (\<forall>report dsk res dsk'.
            post_process_jplag_results submissions report dsk = (Inr res, dsk')
            \<longrightarrow> (\<exists>z'. dsk' (with_min_stem report) = Some (Archive z')
                   \<and> (\<forall>n \<in> fst ` set z'. \<not> named_pair n a b \<and> \<not> named_pair n b a)))"
proof -
  have scratch: "\<not> named_pair n a b \<and> \<not> named_pair n b a"
    if "filter_archive submissions z = Inr d" and "n \<in> fst ` set d" for z d n
    using filter_archive_no_collision [OF that _ s1 s2 au]
          filter_archive_no_collision [OF that _ s2 s1 au [symmetric]]
    by blast
  have "\<exists>z'. dsk' (with_min_stem report) = Some (Archive z')
           \<and> (\<forall>n \<in> fst ` set z'. \<not> named_pair n a b \<and> \<not> named_pair n b a)"
    if pp: "post_process_jplag_results submissions report dsk = (Inr res, dsk')"
    for report dsk res dsk'
  proof -
    from post_process_Inr [OF pp] obtain z d where
      fa: "filter_archive submissions z = Inr d"
      and dsk': "dsk' = dsk(with_min_stem report \<mapsto> Archive (walk d))"
      by blast
    have "\<forall>n \<in> fst ` set (walk d). \<not> named_pair n a b \<and> \<not> named_pair n b a"
      using scratch [OF fa] walk_names [of d] by blast
    then show ?thesis using dsk' by simp
  qed
  then show ?thesis using scratch by blast
qed

theorem collisions_absent_from_output_witness:
  "\<exists>d. filter_archive [sub_one, sub_two, sub_three] example_archive = Inr d
      \<and> ''one-two.json'' \<notin> fst ` set d \<and> ''one-three.json'' \<in> fst ` set d"
proof -
  have np: "named_pair ''one-two.json'' ''one'' ''two''"
    by (simp add: named_pair_def stem_def)
  note t = collisions_absent_from_output
             [OF example_sub_one [unfolded example_subs_def] example_sub_two [unfolded example_subs_def]
                 example_same_author]
  from t example_filter_archive np have "''one-two.json'' \<notin> fst ` set
      [(''overview.json'', File [OverviewDoc
              \<lparr>distributions = [(''MAX'', ones[99 := 0]), (''AVG'', ones[75 := 0]), (''MIN'', ones)],
               submission_ids_to_comparison_file_name =
                 [(''one'', [(''three'', ''one-three.json'')]), (''two'', []),
                  (''three'', [(''one'', ''one-three.json'')])],
               top_comparisons = [\<lparr>first_submission = ''one'', second_submission = ''three''\<rparr>]\<rparr>]),
            (''one-three.json'', File [ComparisonDoc cmp_one_three]),
            (''options.json'', File [Raw ''{}'']),
            (''files'', Dir [(''one/main.py'', [Raw ''def main''])])]"
    by blast
  then show ?thesis using example_filter_archive by simp
qed

subsection \<open>The top comparisons\<close>

lemma filter_comparison_iff: "filter_comparison a b = (\<lambda>c. \<not> names_pair c a b)"
  by (rule ext) (simp add: filter_comparison_def names_pair_def)

lemma loop_body_top_subset:
  assumes "loop_body subs st name = Inr st'"
  shows "set (top_comparisons (overview st')) \<subseteq> set (top_comparisons (overview st))"
proof (cases "name \<in> set ignore_files")
  case True
  then show ?thesis using assms by (simp add: loop_body_ignored)
next
  case False
  from loop_body_cases [OF assms False] obtain a b s1 s2 where
    s: "subs a = Some s1" "subs b = Some s2" and
    c: "author s1 = author s2 \<longrightarrow> remove_collision st name a b = Inr st'"
       "author s1 \<noteq> author s2 \<longrightarrow> st' = st"
    by blast
  show ?thesis
  proof (cases "author s1 = author s2")
    case True
    then show ?thesis using c remove_collision_result(2) [of st name a b st'] by auto
  next
    case False
    then show ?thesis using c by simp
  qed
qed

lemma filter_loop_top_subset:
  "filter_loop subs st names = Inr st'
     \<Longrightarrow> set (top_comparisons (overview st')) \<subseteq> set (top_comparisons (overview st))"
proof (induction names arbitrary: st)
  case Nil
  then show ?case by simp
next
  case (Cons name names)
  from Cons.prems obtain st1 where b: "loop_body subs st name = Inr st1"
    and l: "filter_loop subs st1 names = Inr st'"
    by (auto simp add: and_then_def split: sum.splits)
  show ?case using Cons.IH [OF l] loop_body_top_subset [OF b] by blast
qed

lemma loop_body_top_filtered:
  assumes "loop_body subs st name = Inr st'"
    and "name \<notin> set ignore_files"
    and "split CHR ''-'' (stem name) = [a, b]"
    and "subs a = Some s1" and "subs b = Some s2"
    and "author s1 = author s2"
  shows "top_comparisons (overview st')
           = filter (\<lambda>c. \<not> names_pair c a b) (top_comparisons (overview st))"
proof -
  have "remove_collision st name a b = Inr st'"
    using assms(1) loop_body_collision [OF assms(2-6)] by simp
  then show ?thesis
    using remove_collision_result(2) [of st name a b st'] by (simp add: filter_comparison_iff)
qed

lemma filter_loop_top_removed:
  "filter_loop subs st names = Inr st' \<Longrightarrow> n \<in> set names \<Longrightarrow> n \<notin> set ignore_files
     \<Longrightarrow> split CHR ''-'' (stem n) = [a, b] \<Longrightarrow> subs a = Some s1 \<Longrightarrow> subs b = Some s2
     \<Longrightarrow> author s1 = author s2
     \<Longrightarrow> \<forall>c \<in> set (top_comparisons (overview st')). \<not> names_pair c a b"
proof (induction names arbitrary: st)
  case Nil
  then show ?case by simp
next
  case (Cons name names)
  from Cons.prems(1) obtain st1 where b: "loop_body subs st name = Inr st1"
    and l: "filter_loop subs st1 names = Inr st'"
    by (auto simp add: and_then_def split: sum.splits)
  show ?case
  proof (cases "n = name")
    case True
    have "top_comparisons (overview st1)
            = filter (\<lambda>c. \<not> names_pair c a b) (top_comparisons (overview st))"
      using loop_body_top_filtered [OF b] Cons.prems(3-7) True by simp
    then have "\<forall>c \<in> set (top_comparisons (overview st1)). \<not> names_pair c a b" by simp
    then show ?thesis using filter_loop_top_subset [OF l] by blast
  next
    case False
    then have "n \<in> set names" using Cons.prems(2) by simp
    then show ?thesis by (rule Cons.IH [OF l _ Cons.prems(3-7)])
  qed
qed

text \<open>
  C5. For an entry of the archive whose two submissions \<open>a\<close> and \<open>b\<close> have the same
  author, the step of the loop keeps exactly the descriptors of \<open>top_comparisons\<close>
  that do not name the unordered pair \<open>{a, b}\<close>, whichever of the two stands
  first; and when the filter completes, no descriptor of the \<open>top_comparisons\<close>
  written to \<open>overview.json\<close> names that pair.
\<close>

theorem top_comparisons_drop_removed_pairs:
  assumes ok: "filter_archive submissions z = Inr d"
    and n: "n \<in> fst ` set (extractall z)"
    and ni: "n \<notin> set ignore_files"
    and sp: "split CHR ''-'' (stem n) = [a, b]"
    and s1: "submissions_dict submissions a = Some s1"
    and s2: "submissions_dict submissions b = Some s2"
    and au: "author s1 = author s2"
  shows "\<exists>ov'. map_of d ''overview.json'' = Some (File [OverviewDoc ov'])
           \<and> (\<forall>c \<in> set (top_comparisons ov'). \<not> names_pair c a b)
           \<and> (\<forall>st st'. loop_body (submissions_dict submissions) st n = Inr st'
                 \<longrightarrow> top_comparisons (overview st')
                       = filter (\<lambda>c. \<not> names_pair c a b) (top_comparisons (overview st)))"
proof -
  from filter_archive_Inr [OF ok] obtain ov st where
    l: "filter_loop (submissions_dict submissions) \<lparr>tmpfile = extractall z, overview = ov\<rparr>
          (map fst (extractall z)) = Inr st"
    and d: "d = AList.update ''overview.json'' (File [OverviewDoc (overview st)]) (tmpfile st)"
    by blast
  have m: "map_of d ''overview.json'' = Some (File [OverviewDoc (overview st)])"
    using d by (simp add: update_conv')
  have "n \<in> set (map fst (extractall z))" using n by simp
  then have r: "\<forall>c \<in> set (top_comparisons (overview st)). \<not> names_pair c a b"
    by (rule filter_loop_top_removed [OF l _ ni sp s1 s2 au])
  have "\<forall>st st'. loop_body (submissions_dict submissions) st n = Inr st'
          \<longrightarrow> top_comparisons (overview st')
                = filter (\<lambda>c. \<not> names_pair c a b) (top_comparisons (overview st))"
    using loop_body_top_filtered [OF _ ni sp s1 s2 au] by blast
  then show ?thesis using m r by blast
qed

lemma example_entry: "''one-two.json'' \<in> fst ` set (extractall example_archive)"
  by (simp add: extractall_def example_archive_def)

theorem top_comparisons_drop_removed_pairs_witness:
  "\<exists>d ov'. filter_archive [sub_one, sub_two, sub_three] example_archive = Inr d
      \<and> map_of d ''overview.json'' = Some (File [OverviewDoc ov'])
      \<and> \<lparr>first_submission = ''two'', second_submission = ''one''\<rparr> \<notin> set (top_comparisons ov')"
proof -
  have np: "names_pair \<lparr>first_submission = ''two'', second_submission = ''one''\<rparr> ''one'' ''two''"
    by (simp add: names_pair_def)
  from top_comparisons_drop_removed_pairs
         [OF example_filter_archive example_entry example_not_ignored example_pair
             example_sub_one [unfolded example_subs_def] example_sub_two [unfolded example_subs_def]
             example_same_author]
  obtain ov' where "map_of
      [(''overview.json'', File [OverviewDoc
              \<lparr>distributions = [(''MAX'', ones[99 := 0]), (''AVG'', ones[75 := 0]), (''MIN'', ones)],
               submission_ids_to_comparison_file_name =
                 [(''one'', [(''three'', ''one-three.json'')]), (''two'', []),
                  (''three'', [(''one'', ''one-three.json'')])],
               top_comparisons = [\<lparr>first_submission = ''one'', second_submission = ''three''\<rparr>]\<rparr>]),
            (''one-three.json'', File [ComparisonDoc cmp_one_three]),
            (''options.json'', File [Raw ''{}'']),
            (''files'', Dir [(''one/main.py'', [Raw ''def main''])])] ''overview.json''
        = Some (File [OverviewDoc ov'])"
    and "\<forall>c \<in> set (top_comparisons ov'). \<not> names_pair c ''one'' ''two''"
    by blast
  then show ?thesis using np example_filter_archive by blast
qed

subsection \<open>Entries of different authors\<close>

lemma loop_body_different_authors:
  assumes "name \<notin> set ignore_files"
    and "split CHR ''-'' (stem name) = [a, b]"
    and "subs a = Some s1" and "subs b = Some s2"
    and "author s1 \<noteq> author s2"
  shows "loop_body subs st name = Inr st"
  using assms by (simp add: loop_body_def)

lemma filter_loop_keeps:
  "filter_loop subs st names = Inr st' \<Longrightarrow> n \<notin> set ignore_files
     \<Longrightarrow> split CHR ''-'' (stem n) = [a, b] \<Longrightarrow> subs a = Some s1 \<Longrightarrow> subs b = Some s2
     \<Longrightarrow> author s1 \<noteq> author s2
     \<Longrightarrow> map_of (tmpfile st') n = map_of (tmpfile st) n"
proof (induction names arbitrary: st)
  case Nil
  then show ?case by simp
next
  case (Cons name names)
  from Cons.prems(1) obtain st1 where b: "loop_body subs st name = Inr st1"
    and l: "filter_loop subs st1 names = Inr st'"
    by (auto simp add: and_then_def split: sum.splits)
  have "map_of (tmpfile st1) n = map_of (tmpfile st) n"
  proof (cases "n = name")
    case True
    then have "loop_body subs st name = Inr st"
      using loop_body_different_authors [OF Cons.prems(2-6)] by simp
    then show ?thesis using b by simp
  next
    case False
    then show ?thesis by (rule loop_body_keeps_others [OF b])
  qed
  then show ?case using Cons.IH [OF l Cons.prems(2-6)] by simp
qed

lemma map_of_walk_File: "map_of d n = Some (File t) \<Longrightarrow> map_of (walk d) n = Some (File t)"
  by (induction d) (auto simp add: walk_def split: if_splits)

lemma example_post_process:
  "post_process_jplag_results [sub_one, sub_two, sub_three] [''reports'', ''python3.jplag''] example_disk
     = (Inr ([''reports'', ''python3.jplag''], [''reports'', ''python3.min.jplag'']),
        example_disk([''reports'', ''python3.min.jplag''] \<mapsto> Archive (walk
          [(''overview.json'', File [OverviewDoc
              \<lparr>distributions = [(''MAX'', ones[99 := 0]), (''AVG'', ones[75 := 0]), (''MIN'', ones)],
               submission_ids_to_comparison_file_name =
                 [(''one'', [(''three'', ''one-three.json'')]), (''two'', []),
                  (''three'', [(''one'', ''one-three.json'')])],
               top_comparisons = [\<lparr>first_submission = ''one'', second_submission = ''three''\<rparr>]\<rparr>]),
            (''one-three.json'', File [ComparisonDoc cmp_one_three]),
            (''options.json'', File [Raw ''{}'']),
            (''files'', Dir [(''one/main.py'', [Raw ''def main''])])])))"
proof -
  have o: "open_report example_disk [''reports'', ''python3.jplag''] = Inr example_archive"
    by (simp add: open_report_def example_disk_def)
  have w: "with_min_stem [''reports'', ''python3.jplag''] = [''reports'', ''python3.min.jplag'']"
    by (simp add: with_min_stem_def stem_def suffix_of_def)
  have n: "example_disk [''reports'', ''python3.min.jplag''] = None"
    by (simp add: example_disk_def)
  show ?thesis
    by (simp add: post_process_jplag_results_def o w n and_then_def example_filter_archive Let_def)
qed

text \<open>
  C6. For an entry whose two submissions have different authors, the step of the
  loop returns the state it was given: the scratch directory, the distributions,
  the index and \<open>top_comparisons\<close> are all as before. And whenever the whole
  post-processing completes, the archive at the minimized path holds the entry
  with the text it has in the input archive.
\<close>

theorem different_authors_untouched:
  assumes ni: "n \<notin> set ignore_files"
    and sp: "split CHR ''-'' (stem n) = [a, b]"
    and s1: "submissions_dict submissions a = Some s1"
    and s2: "submissions_dict submissions b = Some s2"
    and au: "author s1 \<noteq> author s2"
  shows "(\<forall>st. loop_body (submissions_dict submissions) st n = Inr st)
       \<and> (\<forall>report dsk res dsk' z t.
            post_process_jplag_results submissions report dsk = (Inr res, dsk')
            \<and> dsk report = Some (Archive z) \<and> map_of (extractall z) n = Some (File t)
            \<longrightarrow> (\<exists>z'. dsk' (with_min_stem report) = Some (Archive z')
                   \<and> map_of z' n = Some (File t)))"
proof -
  have step: "\<forall>st. loop_body (submissions_dict submissions) st n = Inr st"
    using loop_body_different_authors [OF ni sp s1 s2 au] by blast
  have "\<exists>z'. dsk' (with_min_stem report) = Some (Archive z') \<and> map_of z' n = Some (File t)"
    if pp: "post_process_jplag_results submissions report dsk = (Inr res, dsk')"
      and rep: "dsk report = Some (Archive z)"
      and ent: "map_of (extractall z) n = Some (File t)"
    for report dsk res dsk' z t
  proof -
    from post_process_Inr [OF pp] rep obtain d where
      fa: "filter_archive submissions z = Inr d"
      and dsk': "dsk' = dsk(with_min_stem report \<mapsto> Archive (walk d))"
      by auto
    from filter_archive_Inr [OF fa] obtain ov st where
      l: "filter_loop (submissions_dict submissions) \<lparr>tmpfile = extractall z, overview = ov\<rparr>
            (map fst (extractall z)) = Inr st"
      and d: "d = AList.update ''overview.json'' (File [OverviewDoc (overview st)]) (tmpfile st)"
      by blast
    have "map_of (tmpfile st) n = Some (File t)"
      using filter_loop_keeps [OF l ni sp s1 s2 au] ent by simp
    moreover have "n \<noteq> ''overview.json''" using ni by (auto simp add: ignore_files_def)
    ultimately have "map_of d n = Some (File t)" using d by (simp add: update_conv')
    then have "map_of (walk d) n = Some (File t)" by (rule map_of_walk_File)
    then show ?thesis using dsk' by simp
  qed
  then show ?thesis using step by blast
qed

lemma example_three_not_ignored: "''one-three.json'' \<notin> set ignore_files"
  by (simp add: ignore_files_def)

lemma example_three_pair: "split CHR ''-'' (stem ''one-three.json'') = [''one'', ''three'']"
  by (simp add: stem_def)

lemma example_sub_three: "example_subs ''three'' = Some sub_three"
  by (simp add: example_subs_def submissions_dict_def sub_one_def sub_two_def sub_three_def)

lemma example_other_author: "author sub_one \<noteq> author sub_three"
  by (simp add: sub_one_def sub_three_def)

lemma example_disk_report: "example_disk [''reports'', ''python3.jplag''] = Some (Archive example_archive)"
  by (simp add: example_disk_def)

lemma example_three_entry:
  "map_of (extractall example_archive) ''one-three.json'' = Some (File [ComparisonDoc cmp_one_three])"
  by (simp add: extractall_def example_archive_def)

lemma example_with_min_stem:
  "with_min_stem [''reports'', ''python3.jplag''] = [''reports'', ''python3.min.jplag'']"
  by (simp add: with_min_stem_def stem_def suffix_of_def)

theorem different_authors_untouched_witness:
  "loop_body example_subs example_state ''one-three.json'' = Inr example_state
   \<and> (\<exists>z'. snd (post_process_jplag_results [sub_one, sub_two, sub_three]
                   [''reports'', ''python3.jplag''] example_disk)
               [''reports'', ''python3.min.jplag''] = Some (Archive z')
          \<and> map_of z' ''one-three.json'' = Some (File [ComparisonDoc cmp_one_three]))"
proof -
  note t = different_authors_untouched
             [OF example_three_not_ignored example_three_pair
                 example_sub_one [unfolded example_subs_def]
                 example_sub_three [unfolded example_subs_def] example_other_author]
  have a: "loop_body example_subs example_state ''one-three.json'' = Inr example_state"
    using t unfolding example_subs_def by blast
  note t2 = conjunct2 [OF t, rule_format]
  note t3 = t2 [OF conjI [OF example_post_process conjI [OF example_disk_report example_three_entry]]]
  have "\<exists>z'. snd (post_process_jplag_results [sub_one, sub_two, sub_three]
                   [''reports'', ''python3.jplag''] example_disk)
               (with_min_stem [''reports'', ''python3.jplag'']) = Some (Archive z')
          \<and> map_of z' ''one-three.json'' = Some (File [ComparisonDoc cmp_one_three])"
    unfolding example_post_process snd_conv by (rule t3)
  then show ?thesis using a unfolding example_with_min_stem by blast
qed

subsection \<open>Fatal conditions\<close>

lemma loop_body_bad_name:
  assumes "n \<notin> set ignore_files" and "length (split CHR ''-'' (stem n)) \<noteq> 2"
  shows "loop_body subs st n = Inl ValueError"
  using assms by (auto simp add: loop_body_def split: list.splits)

lemma loop_body_unknown_id:
  assumes "n \<notin> set ignore_files" and "split CHR ''-'' (stem n) = [a, b]"
    and "subs a = None \<or> subs b = None"
  shows "loop_body subs st n = Inl KeyError"
  using assms by (auto simp add: loop_body_def split: option.splits)

lemma filter_loop_error:
  "n \<in> set names \<Longrightarrow> (\<And>st. \<exists>e. loop_body subs st n = Inl e)
     \<Longrightarrow> \<exists>e. filter_loop subs st names = Inl e"
proof (induction names arbitrary: st)
  case Nil
  then show ?case by simp
next
  case (Cons name names)
  show ?case
  proof (cases "loop_body subs st name")
    case (Inl e)
    then show ?thesis by (simp add: and_then_def)
  next
    case (Inr st1)
    then have "n \<noteq> name" using Cons.prems(2) [of st] by auto
    then have "n \<in> set names" using Cons.prems(1) by simp
    then have "\<exists>e. filter_loop subs st1 names = Inl e"
      using Cons.IH Cons.prems(2) by blast
    then show ?thesis using Inr by (simp add: and_then_def)
  qed
qed

lemma filter_archive_error_entry:
  assumes "n \<in> fst ` set (extractall z)"
    and "\<And>st. \<exists>e. loop_body (submissions_dict submissions) st n = Inl e"
  shows "\<exists>e. filter_archive submissions z = Inl e"
proof (cases "read_overview (extractall z)")
  case (Inl e)
  then show ?thesis by (simp add: filter_archive_def and_then_def)
next
  case (Inr ov)
  have "n \<in> set (map fst (extractall z))" using assms(1) by simp
  from filter_loop_error [OF this assms(2)]
  obtain e where "filter_loop (submissions_dict submissions)
                    \<lparr>tmpfile = extractall z, overview = ov\<rparr> (map fst (extractall z)) = Inl e"
    by blast
  then show ?thesis using Inr by (simp add: filter_archive_def and_then_def)
qed

lemma filter_archive_error_overview:
  assumes "map_of (extractall z) ''overview.json'' = None
           \<or> (\<exists>t e. map_of (extractall z) ''overview.json'' = Some (File t) \<and> load_overview t = Inl e)"
  shows "\<exists>e. filter_archive submissions z = Inl e"
  using assms
  by (auto simp add: filter_archive_def read_overview_def and_then_def)

lemma post_process_error:
  assumes "dsk report = Some (Archive z)" and "filter_archive submissions z = Inl e"
  shows "post_process_jplag_results submissions report dsk = (Inl e, dsk)"
  using assms
  by (simp add: post_process_jplag_results_def open_report_def and_then_def Let_def)

text \<open>
  C7. When the archive has no \<open>overview.json\<close>, or one that does not parse, or an
  entry outside the ignore list whose stem does not split into exactly two parts
  or names a submission id that is not among the submissions, the post-processing
  raises, and the disk is as it was: nothing has been written at the minimized
  path and the input archive is untouched.
\<close>

theorem fatal_conditions_write_nothing:
  assumes rep: "dsk report = Some (Archive z)"
    and fatal:
      "map_of (extractall z) ''overview.json'' = None
       \<or> (\<exists>t e. map_of (extractall z) ''overview.json'' = Some (File t) \<and> load_overview t = Inl e)
       \<or> (\<exists>n \<in> fst ` set (extractall z).
             n \<notin> set ignore_files \<and> length (split CHR ''-'' (stem n)) \<noteq> 2)
       \<or> (\<exists>n \<in> fst ` set (extractall z). \<exists>a b.
             n \<notin> set ignore_files \<and> split CHR ''-'' (stem n) = [a, b]
             \<and> (submissions_dict submissions a = None \<or> submissions_dict submissions b = None))"
  shows "\<exists>e. post_process_jplag_results submissions report dsk = (Inl e, dsk)"
proof -
  have "\<exists>e. filter_archive submissions z = Inl e"
    using fatal
  proof (elim disjE)
    assume "map_of (extractall z) ''overview.json'' = None"
    then show ?thesis by (simp add: filter_archive_error_overview)
  next
    assume "\<exists>t e. map_of (extractall z) ''overview.json'' = Some (File t) \<and> load_overview t = Inl e"
    then show ?thesis by (simp add: filter_archive_error_overview)
  next
    assume "\<exists>n \<in> fst ` set (extractall z).
              n \<notin> set ignore_files \<and> length (split CHR ''-'' (stem n)) \<noteq> 2"
    then obtain n where n: "n \<in> fst ` set (extractall z)" and ni: "n \<notin> set ignore_files"
      and len: "length (split CHR ''-'' (stem n)) \<noteq> 2"
      by (elim bexE conjE)
    show ?thesis
      by (rule filter_archive_error_entry [OF n]) (simp add: loop_body_bad_name [OF ni len])
  next
    assume "\<exists>n \<in> fst ` set (extractall z). \<exists>a b.
             n \<notin> set ignore_files \<and> split CHR ''-'' (stem n) = [a, b]
             \<and> (submissions_dict submissions a = None \<or> submissions_dict submissions b = None)"
    then obtain n a b where n: "n \<in> fst ` set (extractall z)" and ni: "n \<notin> set ignore_files"
      and sp: "split CHR ''-'' (stem n) = [a, b]"
      and un: "submissions_dict submissions a = None \<or> submissions_dict submissions b = None"
      by (elim bexE exE conjE)
    show ?thesis
      by (rule filter_archive_error_entry [OF n]) (simp add: loop_body_unknown_id [OF ni sp un])
  qed
  then show ?thesis using post_process_error [of dsk report z, OF rep] by blast
qed

theorem fatal_conditions_write_nothing_witness:
  "(\<exists>e. post_process_jplag_results [sub_one, sub_two] [''reports'', ''python3.jplag'']
            [[''reports'', ''python3.jplag''] \<mapsto> Archive archive_without_overview]
          = (Inl e, [[''reports'', ''python3.jplag''] \<mapsto> Archive archive_without_overview]))
   \<and> (\<exists>e. post_process_jplag_results [sub_one, sub_two] [''reports'', ''python3.jplag'']
            [[''reports'', ''python3.jplag''] \<mapsto> Archive archive_with_bad_name]
          = (Inl e, [[''reports'', ''python3.jplag''] \<mapsto> Archive archive_with_bad_name]))
   \<and> (\<exists>e. post_process_jplag_results [sub_one, sub_two] [''reports'', ''python3.jplag'']
            [[''reports'', ''python3.jplag''] \<mapsto> Archive example_archive]
          = (Inl e, [[''reports'', ''python3.jplag''] \<mapsto> Archive example_archive]))"
proof -
  have r: "[[''reports'', ''python3.jplag''] \<mapsto> Archive z] [''reports'', ''python3.jplag'']
             = Some (Archive z)" for z :: directory
    by simp
  have m: "map_of (extractall archive_without_overview) ''overview.json'' = None"
    by (simp add: extractall_def archive_without_overview_def)
  have b: "\<exists>n \<in> fst ` set (extractall archive_with_bad_name).
             n \<notin> set ignore_files \<and> length (split CHR ''-'' (stem n)) \<noteq> 2"
    by (simp add: extractall_def archive_with_bad_name_def ignore_files_def stem_def)
  have u: "\<exists>n \<in> fst ` set (extractall example_archive). \<exists>a b.
             n \<notin> set ignore_files \<and> split CHR ''-'' (stem n) = [a, b]
             \<and> (submissions_dict [sub_one, sub_two] a = None
                  \<or> submissions_dict [sub_one, sub_two] b = None)"
  proof (intro bexI exI conjI)
    show "''one-three.json'' \<in> fst ` set (extractall example_archive)"
      by (simp add: extractall_def example_archive_def)
    show "''one-three.json'' \<notin> set ignore_files" by (rule example_three_not_ignored)
    show "split CHR ''-'' (stem ''one-three.json'') = [''one'', ''three'']"
      by (rule example_three_pair)
    show "submissions_dict [sub_one, sub_two] ''one'' = None
            \<or> submissions_dict [sub_one, sub_two] ''three'' = None"
      by (simp add: submissions_dict_def sub_one_def sub_two_def)
  qed
  note t = fatal_conditions_write_nothing
  show ?thesis
    using t [of "[[''reports'', ''python3.jplag''] \<mapsto> Archive archive_without_overview]"
               "[''reports'', ''python3.jplag'']" archive_without_overview "[sub_one, sub_two]",
             OF r disjI1 [OF m]]
          t [of "[[''reports'', ''python3.jplag''] \<mapsto> Archive archive_with_bad_name]"
               "[''reports'', ''python3.jplag'']" archive_with_bad_name "[sub_one, sub_two]",
             OF r disjI2 [OF disjI2 [OF disjI1 [OF b]]]]
          t [of "[[''reports'', ''python3.jplag''] \<mapsto> Archive example_archive]"
               "[''reports'', ''python3.jplag'']" example_archive "[sub_one, sub_two]",
             OF r disjI2 [OF disjI2 [OF disjI2 [OF u]]]]
    by (intro conjI)
qed

subsection \<open>\<open>PyPlag.run\<close> and the constructor\<close>

text \<open>
  C8. When \<open>run\<close> has come to start the detector and the detector returns with
  an exit status other than 0, the report carries the detector's exit status and
  its captured output, its \<open>report_min_path\<close> is \<open>None\<close>, and the disk is the one
  the detector has left: the post-processing has not run, whatever
  \<open>filter_runs_by_author\<close> says.
\<close>

theorem nonzero_exit_skips_post_processing:
  assumes prep: "prepare_run self lang' submissions dsk = (Inr (args, submissions_dir, report), dsk2)"
    and det: "jplag args submissions_dir dsk2 = Inr (result, dsk3)"
    and nz: "returncode result \<noteq> 0"
  shows "run jplag self lang' submissions dsk
           = (Inr \<lparr>status = returncode result, stdout = stdout' result, stderr = stderr' result,
                   report_path = report, report_min_path = None\<rparr>, dsk3)"
  by (simp add: run_def prep det nz)

lemma init_fresh:
  assumes "dsk (report_dir s) = None"
  shows "\<exists>self. init s dsk = (Inr self, dsk) \<and> settings self = s
           \<and> ''python3'' \<in> set (supported_languages self)"
  using assms by (simp add: init_def path_exists_def Let_def)

lemma example_prepare_run:
  assumes "settings self = example_settings" and "''python3'' \<in> set (supported_languages self)"
  shows "prepare_run self ''python3'' [sub_one, sub_two] Map.empty
           = (Inr ([Arg ''/usr/lib/jvm/java-21-openjdk/bin/java'', Arg ''-jar'',
                    PathArg [''dependencies'', ''jplag.jar''], Arg ''-l'', Arg ''python3'', Arg ''-M'', Arg ''RUN'',
                    Arg ''-r'', PathArg [''reports'', ''python3.jplag'']],
                   [(''one'', [(''main.py'', ''def main'')]), (''two'', [(''main.py'', ''def main'')])],
                   [''reports'', ''python3.jplag'']),
              [[''reports''] \<mapsto> Directory])"
  using assms
  by (simp add: prepare_run_def example_settings_def sub_one_def sub_two_def Let_def)

theorem nonzero_exit_skips_post_processing_witness:
  "\<exists>self. init example_settings Map.empty = (Inr self, Map.empty)
      \<and> run failing_jplag self ''python3'' [sub_one, sub_two] Map.empty
          = (Inr \<lparr>status = 1, stdout = [], stderr = ''no submissions'',
                  report_path = [''reports'', ''python3.jplag''], report_min_path = None\<rparr>,
             [[''reports''] \<mapsto> Directory])"
proof -
  from init_fresh [of Map.empty example_settings] obtain self where
    i: "init example_settings Map.empty = (Inr self, Map.empty)"
    and s: "settings self = example_settings" "''python3'' \<in> set (supported_languages self)"
    by auto
  have det: "failing_jplag args d dsk
               = Inr (\<lparr>returncode = 1, stdout' = [], stderr' = ''no submissions''\<rparr>, dsk)"
    for args d dsk
    by (simp add: failing_jplag_def)
  have nz: "returncode \<lparr>returncode = 1, stdout' = [], stderr' = ''no submissions''\<rparr> \<noteq> 0"
    by simp
  from nonzero_exit_skips_post_processing
         [where jplag = failing_jplag
            and result = "\<lparr>returncode = 1, stdout' = [], stderr' = ''no submissions''\<rparr>"
            and ?dsk3.0 = "[[''reports''] \<mapsto> Directory]",
          OF example_prepare_run [OF s] det nz]
  have "run failing_jplag self ''python3'' [sub_one, sub_two] Map.empty
          = (Inr \<lparr>status = 1, stdout = [], stderr = ''no submissions'',
                  report_path = [''reports'', ''python3.jplag''], report_min_path = None\<rparr>,
             [[''reports''] \<mapsto> Directory])"
    by simp
  then show ?thesis using i by blast
qed

text \<open>
  C10. When the path \<open>report_dir\<close> of the settings is a directory on the disk,
  constructing the \<open>PyPlag\<close> object succeeds and leaves a disk on which the
  directory and everything below it are gone, and every other path is as before.
\<close>

theorem init_deletes_report_dir:
  assumes "dsk (report_dir s) = Some Directory"
  shows "\<exists>self dsk'. init s dsk = (Inr self, dsk')
           \<and> (\<forall>q. prefix (report_dir s) q \<longrightarrow> dsk' q = None)
           \<and> (\<forall>q. \<not> prefix (report_dir s) q \<longrightarrow> dsk' q = dsk q)"
  using assms by (simp add: init_def path_exists_def rmtree_def Let_def)

theorem init_deletes_report_dir_witness:
  "\<exists>self dsk'. init example_settings example_disk = (Inr self, dsk')
      \<and> dsk' [''reports''] = None \<and> dsk' [''reports'', ''python3.jplag''] = None
      \<and> example_disk [''reports'', ''python3.jplag''] = Some (Archive example_archive)"
proof -
  have d: "example_disk (report_dir example_settings) = Some Directory"
    by (simp add: example_disk_def example_settings_def)
  from init_deletes_report_dir [of example_disk example_settings, OF d] obtain self dsk' where
    i: "init example_settings example_disk = (Inr self, dsk')"
    and g: "\<forall>q. prefix (report_dir example_settings) q \<longrightarrow> dsk' q = None"
    by blast
  have "dsk' [''reports''] = None" "dsk' [''reports'', ''python3.jplag''] = None"
    using g by (simp_all add: example_settings_def)
  then show ?thesis using i example_disk_report by blast
qed

subsection \<open>The index when both directions are present\<close>

lemma del_direction_Inl:
  "index_entry idx a b = None \<Longrightarrow> \<exists>e. del_direction idx a b = Inl e"
  by (auto simp add: index_entry_def del_direction_def getitem_def delitem_def and_then_def
      split: option.splits)

lemma del_direction_Inr:
  assumes "index_entry idx a b = Some f"
  shows "\<exists>idx'. del_direction idx a b = Inr idx'
           \<and> (\<forall>s t. index_entry idx' s t = (if s = a \<and> t = b then None else index_entry idx s t))"
  using assms
  by (auto simp add: index_entry_def del_direction_def getitem_def delitem_def and_then_def
        update_conv' delete_conv'
      split: option.splits)

lemma if_None_twice:
  "(if A then None else if B then None else X) = (if B \<or> A then None else X)"
  by simp

lemma prune_index_symmetric:
  assumes sym: "\<forall>s t. (index_entry idx s t = None) = (index_entry idx t s = None)"
  shows "index_entry (prune_index idx a b) s t
           = (if (s = a \<and> t = b) \<or> (s = b \<and> t = a) then None else index_entry idx s t)"
proof (cases "index_entry idx a b")
  case None
  then have ba: "index_entry idx b a = None" using sym [rule_format, of a b] by simp
  from del_direction_Inl [OF None] have "prune_index idx a b = idx"
    by (auto simp add: prune_index_def)
  then show ?thesis using None ba by (simp split: if_splits)
next
  case (Some f)
  from del_direction_Inr [OF Some] obtain idx1 where
    d1: "del_direction idx a b = Inr idx1"
    and e1: "\<forall>s t. index_entry idx1 s t = (if s = a \<and> t = b then None else index_entry idx s t)"
    by (elim exE conjE)
  show ?thesis
  proof (cases "index_entry idx1 b a")
    case None
    from del_direction_Inl [OF None] have p: "prune_index idx a b = idx1"
      using d1 by (auto simp add: prune_index_def)
    have nn: "index_entry idx b a \<noteq> None"
      using \<open>index_entry idx a b = Some f\<close> sym [rule_format, of a b] by simp
    have ab: "a = b"
    proof (rule ccontr)
      assume "a \<noteq> b"
      then have "index_entry idx1 b a = index_entry idx b a"
        using e1 [rule_format, of b a] by simp
      then show False using None nn by simp
    qed
    have "index_entry idx1 s t = (if s = a \<and> t = b then None else index_entry idx s t)"
      by (rule e1 [rule_format])
    then show ?thesis unfolding p using ab by simp
  next
    case (Some g)
    from del_direction_Inr [OF Some] obtain idx2 where
      d2: "del_direction idx1 b a = Inr idx2"
      and e2: "\<forall>s t. index_entry idx2 s t = (if s = b \<and> t = a then None else index_entry idx1 s t)"
      by (elim exE conjE)
    have pr: "prune_index idx a b = idx2" using d1 d2 by (simp add: prune_index_def)
    have i2: "index_entry idx2 s t = (if s = b \<and> t = a then None else index_entry idx1 s t)"
      by (rule e2 [rule_format])
    have i1: "index_entry idx1 s t = (if s = a \<and> t = b then None else index_entry idx s t)"
      by (rule e1 [rule_format])
    show ?thesis unfolding pr i2 i1 by (rule if_None_twice)
  qed
qed


lemma prune_index_keeps_symmetry:
  assumes sym: "\<forall>s t. (index_entry idx s t = None) = (index_entry idx t s = None)"
  shows "(index_entry (prune_index idx a b) s t = None)
           = (index_entry (prune_index idx a b) t s = None)"
proof (cases "(s = a \<and> t = b) \<or> (s = b \<and> t = a)")
  case True
  then have "(t = a \<and> s = b) \<or> (t = b \<and> s = a)" by blast
  then show ?thesis using True by (simp only: prune_index_symmetric [OF sym] if_True)
next
  case False
  then have "\<not> ((t = a \<and> s = b) \<or> (t = b \<and> s = a))" by blast
  then show ?thesis
    using False sym [rule_format, of s t] by (simp only: prune_index_symmetric [OF sym] if_False)
qed

lemma loop_body_index:
  assumes b: "loop_body subs st name = Inr st'"
    and sym: "\<forall>s t. (index_entry (submission_ids_to_comparison_file_name (overview st)) s t = None)
                   = (index_entry (submission_ids_to_comparison_file_name (overview st)) t s = None)"
  shows "(\<forall>s t. (index_entry (submission_ids_to_comparison_file_name (overview st')) s t = None)
                   = (index_entry (submission_ids_to_comparison_file_name (overview st')) t s = None))
       \<and> (\<forall>s t f. index_entry (submission_ids_to_comparison_file_name (overview st')) s t = Some f
             \<longrightarrow> index_entry (submission_ids_to_comparison_file_name (overview st)) s t = Some f)
       \<and> (\<forall>a b s1 s2. name \<notin> set ignore_files \<and> split CHR ''-'' (stem name) = [a, b]
             \<and> subs a = Some s1 \<and> subs b = Some s2 \<and> author s1 = author s2
             \<longrightarrow> index_entry (submission_ids_to_comparison_file_name (overview st')) a b = None
               \<and> index_entry (submission_ids_to_comparison_file_name (overview st')) b a = None)"
proof (cases "name \<in> set ignore_files")
  case True
  then have "st' = st" using b by (simp add: loop_body_ignored)
  then show ?thesis using sym True by simp
next
  case False
  from loop_body_cases [OF b False] obtain a b s1 s2 where
    sp: "split CHR ''-'' (stem name) = [a, b]" and
    s: "subs a = Some s1" "subs b = Some s2" and
    c: "author s1 = author s2 \<longrightarrow> remove_collision st name a b = Inr st'"
       "author s1 \<noteq> author s2 \<longrightarrow> st' = st"
    by blast
  show ?thesis
  proof (cases "author s1 = author s2")
    case False
    then have "st' = st" using c by simp
    then show ?thesis using sym sp s False by simp
  next
    case True
    then have i: "submission_ids_to_comparison_file_name (overview st')
                    = prune_index (submission_ids_to_comparison_file_name (overview st)) a b"
      using c remove_collision_result(3) by simp
    have p1: "\<forall>s t. (index_entry (submission_ids_to_comparison_file_name (overview st')) s t = None)
                   = (index_entry (submission_ids_to_comparison_file_name (overview st')) t s = None)"
      unfolding i using prune_index_keeps_symmetry [OF sym] by blast
    have p2: "\<forall>s t f. index_entry (submission_ids_to_comparison_file_name (overview st')) s t = Some f
             \<longrightarrow> index_entry (submission_ids_to_comparison_file_name (overview st)) s t = Some f"
      unfolding i prune_index_symmetric [OF sym] by (simp split: if_splits)
    have p3: "index_entry (submission_ids_to_comparison_file_name (overview st')) a b = None
               \<and> index_entry (submission_ids_to_comparison_file_name (overview st')) b a = None"
      unfolding i prune_index_symmetric [OF sym] by simp
    show ?thesis using p1 p2 p3 sp by simp
  qed
qed


lemma filter_loop_index:
  "filter_loop subs st names = Inr st'
   \<Longrightarrow> \<forall>s t. (index_entry (submission_ids_to_comparison_file_name (overview st)) s t = None)
                   = (index_entry (submission_ids_to_comparison_file_name (overview st)) t s = None)
   \<Longrightarrow> (\<forall>s t. (index_entry (submission_ids_to_comparison_file_name (overview st')) s t = None)
                   = (index_entry (submission_ids_to_comparison_file_name (overview st')) t s = None))
       \<and> (\<forall>s t f. index_entry (submission_ids_to_comparison_file_name (overview st')) s t = Some f
             \<longrightarrow> index_entry (submission_ids_to_comparison_file_name (overview st)) s t = Some f)
       \<and> (\<forall>n a b s1 s2. n \<in> set names \<and> n \<notin> set ignore_files \<and> split CHR ''-'' (stem n) = [a, b]
             \<and> subs a = Some s1 \<and> subs b = Some s2 \<and> author s1 = author s2
             \<longrightarrow> index_entry (submission_ids_to_comparison_file_name (overview st')) a b = None
               \<and> index_entry (submission_ids_to_comparison_file_name (overview st')) b a = None)"
proof (induction names arbitrary: st)
  case Nil
  then show ?case by simp
next
  case (Cons name names)
  from Cons.prems(1) obtain st1 where b: "loop_body subs st name = Inr st1"
    and l: "filter_loop subs st1 names = Inr st'"
    by (auto simp add: and_then_def split: sum.splits)
  note body = loop_body_index [OF b Cons.prems(2)]
  note sym1 = conjunct1 [OF body]
  note mono1 = conjunct1 [OF conjunct2 [OF body], rule_format]
  note rem1 = conjunct2 [OF conjunct2 [OF body], rule_format]
  note rest = Cons.IH [OF l sym1]
  note sym' = conjunct1 [OF rest]
  note mono' = conjunct1 [OF conjunct2 [OF rest], rule_format]
  note rem' = conjunct2 [OF conjunct2 [OF rest], rule_format]
  have none': "index_entry (submission_ids_to_comparison_file_name (overview st')) s t = None"
    if "index_entry (submission_ids_to_comparison_file_name (overview st1)) s t = None" for s t
  proof (cases "index_entry (submission_ids_to_comparison_file_name (overview st')) s t")
    case None
    then show ?thesis .
  next
    case (Some f)
    from mono' [OF Some] that show ?thesis by simp
  qed
  have m: "\<forall>s t f. index_entry (submission_ids_to_comparison_file_name (overview st')) s t = Some f
             \<longrightarrow> index_entry (submission_ids_to_comparison_file_name (overview st)) s t = Some f"
    using mono' mono1 by blast
  have r: "index_entry (submission_ids_to_comparison_file_name (overview st')) a b = None
               \<and> index_entry (submission_ids_to_comparison_file_name (overview st')) b a = None"
    if h: "n \<in> set (name # names) \<and> n \<notin> set ignore_files \<and> split CHR ''-'' (stem n) = [a, b]
             \<and> subs a = Some s1 \<and> subs b = Some s2 \<and> author s1 = author s2"
    for n a b s1 s2
  proof (cases "n = name")
    case True
    have "index_entry (submission_ids_to_comparison_file_name (overview st1)) a b = None
               \<and> index_entry (submission_ids_to_comparison_file_name (overview st1)) b a = None"
      by (rule rem1 [of a b s1 s2]) (use h True in simp)
    then show ?thesis using none' by blast
  next
    case False
    show ?thesis by (rule rem' [of n a b s1 s2]) (use h False in simp)
  qed
  show ?case using sym' m r by blast
qed

text \<open>
  The counterpart of the run on the pruned index above. When the index of the
  input has every pair in both directions, and every reference names an entry of
  the archive whose stem is the pair, then after a completed filter every
  reference left in the index written to \<open>overview.json\<close> was there before and
  names an entry of the scratch directory that is zipped. The defect of the single
  \<open>try\<close> block shows only on an index that has lost one direction.
\<close>

lemma symmetric_index_stays_consistent:
  assumes ok: "filter_archive submissions z = Inr d"
    and ov: "read_overview (extractall z) = Inr ov"
    and sym: "\<forall>s t. (index_entry (submission_ids_to_comparison_file_name ov) s t = None)
                   = (index_entry (submission_ids_to_comparison_file_name ov) t s = None)"
    and valid: "\<forall>s t f. index_entry (submission_ids_to_comparison_file_name ov) s t = Some f
                  \<longrightarrow> f \<in> fst ` set (extractall z) \<and> f \<notin> set ignore_files
                      \<and> (split CHR ''-'' (stem f) = [s, t] \<or> split CHR ''-'' (stem f) = [t, s])"
  shows "\<exists>ov'. map_of d ''overview.json'' = Some (File [OverviewDoc ov'])
           \<and> (\<forall>s t f. index_entry (submission_ids_to_comparison_file_name ov') s t = Some f
                 \<longrightarrow> index_entry (submission_ids_to_comparison_file_name ov) s t = Some f
                     \<and> f \<in> fst ` set d)"
proof -
  from filter_archive_Inr [OF ok] ov obtain st where
    l: "filter_loop (submissions_dict submissions) \<lparr>tmpfile = extractall z, overview = ov\<rparr>
          (map fst (extractall z)) = Inr st"
    and d: "d = AList.update ''overview.json'' (File [OverviewDoc (overview st)]) (tmpfile st)"
    by auto
  have sym0: "\<forall>s t. (index_entry (submission_ids_to_comparison_file_name
                         (overview \<lparr>tmpfile = extractall z, overview = ov\<rparr>)) s t = None)
                   = (index_entry (submission_ids_to_comparison_file_name
                         (overview \<lparr>tmpfile = extractall z, overview = ov\<rparr>)) t s = None)"
    using sym by simp
  note inv = filter_loop_index [OF l sym0]
  note mono = conjunct1 [OF conjunct2 [OF inv], rule_format]
  note rem = conjunct2 [OF conjunct2 [OF inv], rule_format]
  have m: "map_of d ''overview.json'' = Some (File [OverviewDoc (overview st)])"
    using d by (simp add: update_conv')
  have "index_entry (submission_ids_to_comparison_file_name ov) s t = Some f \<and> f \<in> fst ` set d"
    if fin: "index_entry (submission_ids_to_comparison_file_name (overview st)) s t = Some f"
    for s t f
  proof -
    have ini: "index_entry (submission_ids_to_comparison_file_name ov) s t = Some f"
      using mono [OF fin] by simp
    from valid [rule_format, OF ini] have fn: "f \<in> fst ` set (extractall z)"
      and ni: "f \<notin> set ignore_files"
      and sp: "split CHR ''-'' (stem f) = [s, t] \<or> split CHR ''-'' (stem f) = [t, s]"
      by simp_all
    have fn': "f \<in> set (map fst (extractall z))" using fn by simp
    from filter_loop_collision_removed [OF l fn' ni] obtain a b s1 s2 where
      ab: "split CHR ''-'' (stem f) = [a, b]"
      and s: "submissions_dict submissions a = Some s1" "submissions_dict submissions b = Some s2"
      by blast
    have differ: "author s1 \<noteq> author s2"
    proof
      assume eq: "author s1 = author s2"
      have "index_entry (submission_ids_to_comparison_file_name (overview st)) a b = None
              \<and> index_entry (submission_ids_to_comparison_file_name (overview st)) b a = None"
        by (rule rem [of f a b s1 s2]) (use fn' ni ab s eq in simp)
      moreover have "(a = s \<and> b = t) \<or> (a = t \<and> b = s)" using sp ab by auto
      ultimately have "index_entry (submission_ids_to_comparison_file_name (overview st)) s t = None"
        by blast
      then show False using fin by simp
    qed
    have "map_of (tmpfile st) f = map_of (extractall z) f"
      using filter_loop_keeps [OF l ni ab s differ] by simp
    moreover have "map_of (extractall z) f \<noteq> None" using fn by (simp add: map_of_eq_None_iff)
    ultimately have "map_of (tmpfile st) f \<noteq> None" by simp
    then have "f \<in> fst ` set (tmpfile st)" by (simp add: map_of_eq_None_iff)
    then have "f \<in> fst ` set d" using d by (simp add: dom_update)
    then show ?thesis using ini by simp
  qed
  then show ?thesis using m by blast
qed

lemma example_read_overview: "read_overview (extractall example_archive) = Inr example_overview"
  by (simp add: read_overview_def extractall_def example_archive_def load_overview_def)

lemma example_index_entry:
  "index_entry (submission_ids_to_comparison_file_name example_overview) s t
     = (if s = ''one'' \<and> t = ''two'' \<or> s = ''two'' \<and> t = ''one'' then Some ''one-two.json''
        else if s = ''one'' \<and> t = ''three'' \<or> s = ''three'' \<and> t = ''one'' then Some ''one-three.json''
        else None)"
  by (simp add: index_entry_def example_overview_def)

lemma example_index_symmetric:
  "\<forall>s t. (index_entry (submission_ids_to_comparison_file_name example_overview) s t = None)
           = (index_entry (submission_ids_to_comparison_file_name example_overview) t s = None)"
  unfolding example_index_entry by auto

lemma example_index_valid:
  "\<forall>s t f. index_entry (submission_ids_to_comparison_file_name example_overview) s t = Some f
      \<longrightarrow> f \<in> fst ` set (extractall example_archive) \<and> f \<notin> set ignore_files
          \<and> (split CHR ''-'' (stem f) = [s, t] \<or> split CHR ''-'' (stem f) = [t, s])"
  unfolding example_index_entry
  by (auto simp add: extractall_def example_archive_def ignore_files_def stem_def split: if_splits)


lemma symmetric_index_stays_consistent_example:
  "\<exists>d ov'. filter_archive [sub_one, sub_two, sub_three] example_archive = Inr d
      \<and> map_of d ''overview.json'' = Some (File [OverviewDoc ov'])
      \<and> index_entry (submission_ids_to_comparison_file_name ov') ''one'' ''three''
          = Some ''one-three.json''
      \<and> ''one-three.json'' \<in> fst ` set d"
proof -
  from symmetric_index_stays_consistent
         [OF example_filter_archive example_read_overview example_index_symmetric
             example_index_valid]
  obtain ov' where
    m: "map_of
          [(''overview.json'', File [OverviewDoc
              \<lparr>distributions = [(''MAX'', ones[99 := 0]), (''AVG'', ones[75 := 0]), (''MIN'', ones)],
               submission_ids_to_comparison_file_name =
                 [(''one'', [(''three'', ''one-three.json'')]), (''two'', []),
                  (''three'', [(''one'', ''one-three.json'')])],
               top_comparisons = [\<lparr>first_submission = ''one'', second_submission = ''three''\<rparr>]\<rparr>]),
            (''one-three.json'', File [ComparisonDoc cmp_one_three]),
            (''options.json'', File [Raw ''{}'']),
            (''files'', Dir [(''one/main.py'', [Raw ''def main''])])] ''overview.json''
          = Some (File [OverviewDoc ov'])"
    and c: "\<forall>s t f. index_entry (submission_ids_to_comparison_file_name ov') s t = Some f
              \<longrightarrow> index_entry (submission_ids_to_comparison_file_name example_overview) s t = Some f
                  \<and> f \<in> fst ` set
          [(''overview.json'', File [OverviewDoc
              \<lparr>distributions = [(''MAX'', ones[99 := 0]), (''AVG'', ones[75 := 0]), (''MIN'', ones)],
               submission_ids_to_comparison_file_name =
                 [(''one'', [(''three'', ''one-three.json'')]), (''two'', []),
                  (''three'', [(''one'', ''one-three.json'')])],
               top_comparisons = [\<lparr>first_submission = ''one'', second_submission = ''three''\<rparr>]\<rparr>]),
            (''one-three.json'', File [ComparisonDoc cmp_one_three]),
            (''options.json'', File [Raw ''{}'']),
            (''files'', Dir [(''one/main.py'', [Raw ''def main''])])]"
    by (elim exE conjE)
  have e: "index_entry (submission_ids_to_comparison_file_name ov') ''one'' ''three''
             = Some ''one-three.json''"
    using m by (auto simp add: index_entry_def)
  from c [rule_format, OF e] m e example_filter_archive show ?thesis by blast
qed

subsection \<open>The two cases of the \<open>try\<close> block\<close>

text \<open>
  What lines 169-174 do for any index. When \<open>id1 \<rightarrow> id2\<close> is missing, the index
  is left as it is, whether or not it has \<open>id2 \<rightarrow> id1\<close>. When \<open>id1 \<rightarrow> id2\<close> is
  present, neither direction is in the index afterwards.
\<close>

lemma prune_index_first_missing:
  "index_entry idx a b = None \<Longrightarrow> prune_index idx a b = idx"
  using del_direction_Inl [of idx a b] by (auto simp add: prune_index_def)

lemma prune_index_first_present:
  assumes "index_entry idx a b = Some f"
  shows "index_entry (prune_index idx a b) a b = None
       \<and> index_entry (prune_index idx a b) b a = None"
proof -
  from del_direction_Inr [OF assms] obtain idx1 where
    d1: "del_direction idx a b = Inr idx1"
    and e1: "\<forall>s t. index_entry idx1 s t = (if s = a \<and> t = b then None else index_entry idx s t)"
    by (elim exE conjE)
  have ab1: "index_entry idx1 a b = None" using e1 [rule_format, of a b] by simp
  show ?thesis
  proof (cases "index_entry idx1 b a")
    case None
    from del_direction_Inl [OF None] have "prune_index idx a b = idx1"
      using d1 by (auto simp add: prune_index_def)
    then show ?thesis using None ab1 by simp
  next
    case (Some g)
    from del_direction_Inr [OF Some] obtain idx2 where
      d2: "del_direction idx1 b a = Inr idx2"
      and e2: "\<forall>s t. index_entry idx2 s t = (if s = b \<and> t = a then None else index_entry idx1 s t)"
      by (elim exE conjE)
    have pr: "prune_index idx a b = idx2" using d1 d2 by (simp add: prune_index_def)
    have "index_entry idx2 b a = None" using e2 [rule_format, of b a] by simp
    moreover have "index_entry idx2 a b = None"
      using e2 [rule_format, of a b] ab1 by (simp split: if_splits)
    ultimately show ?thesis unfolding pr by simp
  qed
qed

subsection \<open>Archives with distinct names\<close>

text \<open>
  The extraction of an archive whose entry names are distinct is the archive
  itself, so \<open>map_of (extractall z)\<close> reads the entries of such an archive.
\<close>

lemma update_new: "n \<notin> fst ` set al \<Longrightarrow> AList.update n x al = al @ [(n, x)]"
  by (induction al) auto

lemma fold_update_distinct:
  "distinct (map fst (acc @ z))
     \<Longrightarrow> fold (\<lambda>(name, x) d. AList.update name x d) z acc = acc @ z"
proof (induction z arbitrary: acc)
  case Nil
  then show ?case by simp
next
  case (Cons e z)
  obtain n x where e: "e = (n, x)" by (cases e)
  have "n \<notin> fst ` set acc" using Cons.prems e by auto
  then have u: "AList.update n x acc = acc @ [(n, x)]" by (rule update_new)
  have "distinct (map fst ((acc @ [(n, x)]) @ z))" using Cons.prems e by simp
  from Cons.IH [OF this] show ?case using e u by simp
qed

lemma extractall_distinct: "distinct (map fst z) \<Longrightarrow> extractall z = z"
  using fold_update_distinct [of "[]" z] by (simp add: extractall_def)

end
